theory Spec2Isabelle
  imports Complex_Main
begin

section \<open>Data model\<close>

text \<open>
  The enumerations of \<^verbatim>\<open>models/schema.py\<close>. The database columns are strings; the
  only values ever written are the members of these enumerations, so each is a datatype.
\<close>

datatype car_availability = Disponible | Loue | Vendu

datatype transaction_type = Vente | Location

datatype reservation_status = En_attente | Confirmee | Annulee | Terminee

datatype user_role = Client | Vendeur

text \<open>A \<^verbatim>\<open>datetime\<close> is a point on a linear time axis.\<close>

type_synonym datetime = int

text \<open>
  The rows of the tables \<^verbatim>\<open>cars\<close> and \<^verbatim>\<open>reservations\<close>
  (\<^verbatim>\<open>models/database.py\<close>), without the bookkeeping columns
  \<^verbatim>\<open>created_at\<close> and \<^verbatim>\<open>updated_at\<close>, which the four operations below never
  read. Users appear only as the key stored in a reservation and as a role.
  The primary key is kept beside the row: a table is a list of (id, row) pairs.
  Prices are Python floats that the code only compares with zero; they are reals here.
\<close>

record car =
  marque :: string
  modele :: string
  couleur :: string
  motorisation :: string
  prix :: real
  disponibilite :: car_availability
  description :: "string option"
  kilometrage :: "int option"
  annee :: "int option"
  image_url :: "string option"
  is_active :: bool

text \<open>
  \<open>reservation_base\<close> carries the fields of \<^verbatim>\<open>ReservationBase\<close> as a request body
  sends them, before the schema has looked at them; the constraints that make such a body a
  \<^verbatim>\<open>ReservationCreate\<close> are \<open>reservation_base_valid\<close> below. A stored reservation
  has the owner and the status as well.
\<close>

record reservation_base =
  car_id :: nat
  type_transaction :: transaction_type
  date_debut :: datetime
  date_fin :: "datetime option"
  prix_final :: real
  res_notes :: "string option"

record reservation = reservation_base +
  user_id :: nat
  statut :: reservation_status

text \<open>
  \<^verbatim>\<open>ReservationUpdate\<close>: every field is optional. \<^verbatim>\<open>dict(exclude_unset=True)\<close>
  tells a field that was not sent (\<open>None\<close>) from a field sent as null (\<open>Some None\<close>)
  and from a field sent with a value (\<open>Some (Some v)\<close>).
\<close>

record reservation_update =
  upd_type_transaction :: "transaction_type option option"
  upd_date_debut :: "datetime option option"
  upd_date_fin :: "datetime option option"
  upd_prix_final :: "real option option"
  upd_statut :: "reservation_status option option"
  upd_notes :: "string option option"

text \<open>
  Errors. Every \<^verbatim>\<open>raise HTTPException\<close> of the service is a status code and a detail
  message; the messages are enumerated. \<open>AttributeError\<close> is what Python raises on
  \<^verbatim>\<open>car.disponibilite = ...\<close> when \<^verbatim>\<open>car\<close> is \<^verbatim>\<open>None\<close>.
  \<open>RequestValidationError\<close> is the refusal (422) of a request body that does not pass its
  schema, before the service is called; \<open>ResponseValidationError\<close> is what
  \<^verbatim>\<open>ReservationResponse.from_orm\<close> raises on a row that does not pass the response
  schema.
\<close>

datatype detail =
    Voiture_non_trouvee
  | Voiture_non_disponible
  | Dates_invalides
  | Deja_reservee
  | Prix_invalide
  | Erreur_creation
  | Seuls_les_vendeurs
  | Reservation_non_trouvee
  | Transition_invalide reservation_status reservation_status
  | Erreur_mise_a_jour_statut
  | Modifier_propres_reservations
  | Modifier_en_attente
  | Erreur_mise_a_jour
  | Annuler_propres_reservations
  | Ne_peut_pas_etre_annulee
  | Erreur_annulation

datatype error =
    HTTPException nat detail
  | AttributeError
  | RequestValidationError
  | ResponseValidationError

section \<open>The database session\<close>

text \<open>
  The persisted state is the two tables. A session (\<^verbatim>\<open>SessionLocal()\<close> in
  \<^verbatim>\<open>configs/database.py\<close>, one per request, closed when the request ends) holds
  the committed state and the state as the pending writes of the session see it.
  \<open>db_commit\<close> either makes the pending writes durable or raises, which is decided by
  the store and is a parameter here; \<open>db_rollback\<close> forgets the pending writes; closing
  the session leaves what was committed.
\<close>

record store =
  cars :: "(nat \<times> car) list"
  reservations :: "(nat \<times> reservation) list"

record session =
  committed :: store
  working :: store

definition open_session :: "store \<Rightarrow> session" where
  "open_session db = \<lparr>committed = db, working = db\<rparr>"

definition close_session :: "session \<Rightarrow> store" where
  "close_session s = committed s"

definition db_commit :: "bool \<Rightarrow> session \<Rightarrow> session + session" where
  "db_commit commit_ok s = (if commit_ok then Inr (s\<lparr>committed := working s\<rparr>) else Inl s)"

definition db_rollback :: "session \<Rightarrow> session" where
  "db_rollback s = s\<lparr>working := committed s\<rparr>"

text \<open>
  \<^verbatim>\<open>db.refresh\<close> (and the query that reloads the row with its relations) reads the
  committed row back. Like the commit it can raise, which is again a parameter. It
  changes nothing in the store.
\<close>

definition db_refresh :: "bool \<Rightarrow> session \<Rightarrow> session + session" where
  "db_refresh refresh_ok s = (if refresh_ok then Inr s else Inl s)"

text \<open>
  The block \<^verbatim>\<open>try: db.commit(); db.refresh(...) except: db.rollback(); raise ...\<close>:
  \<open>Inl\<close> is the session after the rollback of the handler, \<open>Inr\<close> the session after
  both steps. A rollback that follows a successful commit finds nothing pending.
\<close>

definition commit_and_refresh :: "bool \<Rightarrow> bool \<Rightarrow> session \<Rightarrow> session + session" where
  "commit_and_refresh commit_ok refresh_ok s =
     (case db_commit commit_ok s of
        Inl s1 \<Rightarrow> Inl (db_rollback s1)
      | Inr s1 \<Rightarrow>
          (case db_refresh refresh_ok s1 of
             Inl s2 \<Rightarrow> Inl (db_rollback s2)
           | Inr s2 \<Rightarrow> Inr s2))"

text \<open>\<^verbatim>\<open>query(...).filter(id == k).first()\<close> is the first row with that key.\<close>

definition get_car :: "session \<Rightarrow> nat \<Rightarrow> car option" where
  "get_car s cid = map_of (cars (working s)) cid"

definition get_reservation :: "session \<Rightarrow> nat \<Rightarrow> reservation option" where
  "get_reservation s rid = map_of (reservations (working s)) rid"

text \<open>Writing an attribute of a loaded row is an update of the rows with its key.\<close>

definition update_rows :: "nat \<Rightarrow> ('a \<Rightarrow> 'a) \<Rightarrow> (nat \<times> 'a) list \<Rightarrow> (nat \<times> 'a) list" where
  "update_rows k f rows = map (\<lambda>(i, v). if i = k then (i, f v) else (i, v)) rows"

definition set_car_disponibilite :: "nat \<Rightarrow> car_availability \<Rightarrow> session \<Rightarrow> session" where
  "set_car_disponibilite cid a s =
     s\<lparr>working := (working s)\<lparr>cars := update_rows cid (\<lambda>c. c\<lparr>disponibilite := a\<rparr>) (cars (working s))\<rparr>\<rparr>"

definition set_reservation :: "nat \<Rightarrow> reservation \<Rightarrow> session \<Rightarrow> session" where
  "set_reservation rid r s =
     s\<lparr>working := (working s)\<lparr>reservations := update_rows rid (\<lambda>_. r) (reservations (working s))\<rparr>\<rparr>"

text \<open>
  The integer primary key of a new row is assigned by the store (auto-increment):
  one more than the largest key in the table.
\<close>

definition next_id :: "(nat \<times> 'a) list \<Rightarrow> nat" where
  "next_id rows = Suc (foldr max (map fst rows) 0)"

definition db_add :: "reservation \<Rightarrow> session \<Rightarrow> session" where
  "db_add r s =
     s\<lparr>working := (working s)\<lparr>reservations :=
         reservations (working s) @ [(next_id (reservations (working s)), r)]\<rparr>\<rparr>"

section \<open>The schemas (models/schema.py)\<close>

text \<open>
  \<^verbatim>\<open>ReservationBase\<close>: what the schema requires beyond the types of the fields, of a
  request body (\<^verbatim>\<open>ReservationCreate\<close> adds nothing) and of a response
  (\<^verbatim>\<open>ReservationResponse\<close> inherits it). The price is \<^verbatim>\<open>Field(..., gt=0)\<close>, the
  notes have at most 500 characters, and the validator of \<^verbatim>\<open>date_fin\<close> wants, for a
  rental, an end date that is present and later than the start date (the validator as it is
  written, applied to the value it is given).
\<close>

definition reservation_base_valid :: "'a reservation_base_scheme \<Rightarrow> bool" where
  "reservation_base_valid d =
     (prix_final d > 0
      \<and> (case res_notes d of None \<Rightarrow> True | Some n \<Rightarrow> length n \<le> 500)
      \<and> (if type_transaction d = Location then
            (case date_fin d of None \<Rightarrow> False
             | Some f \<Rightarrow> if f \<le> date_debut d then False else True)
          else True))"

text \<open>
  \<^verbatim>\<open>ReservationResponse.from_orm\<close> builds the response from the loaded row, its car
  and its user, and raises when one of them does not pass its schema. It runs after the
  commit and outside the \<^verbatim>\<open>try\<close>. The row itself must satisfy the constraints of
  \<^verbatim>\<open>ReservationBase\<close>; whether its car and its user, loaded through the
  relationships, pass \<^verbatim>\<open>CarResponse\<close> and \<^verbatim>\<open>UserResponse\<close> is a parameter
  (\<open>response_ok\<close>): users are not part of the store here.
\<close>

definition from_orm :: "bool \<Rightarrow> nat \<times> reservation \<Rightarrow> error + nat \<times> reservation" where
  "from_orm response_ok row =
     (if reservation_base_valid (snd row) \<and> response_ok then Inr row
      else Inl ResponseValidationError)"

section \<open>Date validation (utils/helpers.py)\<close>

definition validate_reservation_dates ::
  "datetime \<Rightarrow> datetime \<Rightarrow> datetime option \<Rightarrow> transaction_type \<Rightarrow> bool" where
  "validate_reservation_dates now debut fin ty =
     (if debut < now then False
      else if ty = Location then
        (case fin of None \<Rightarrow> False
         | Some f \<Rightarrow> if f \<le> debut then False else True)
      else True)"

section \<open>The reservation service (services/reservation\_service.py)\<close>

subsection \<open>create\_reservation\<close>

text \<open>
  The conflict query: rows of the same car, of type \<^verbatim>\<open>location\<close>, pending or
  confirmed, with \<^verbatim>\<open>date_debut < new.date_fin\<close> and \<^verbatim>\<open>date_fin > new.date_debut\<close>.
  A row whose \<^verbatim>\<open>date_fin\<close> is NULL does not satisfy the SQL comparison.
\<close>

definition is_conflict :: "nat \<Rightarrow> datetime \<Rightarrow> datetime \<Rightarrow> reservation \<Rightarrow> bool" where
  "is_conflict cid debut fin r =
     (car_id r = cid \<and> type_transaction r = Location
      \<and> (statut r = En_attente \<or> statut r = Confirmee)
      \<and> date_debut r < fin
      \<and> (case date_fin r of None \<Rightarrow> False | Some f \<Rightarrow> f > debut))"

definition existing_reservations :: "session \<Rightarrow> nat \<Rightarrow> datetime \<Rightarrow> datetime \<Rightarrow> nat" where
  "existing_reservations s cid debut fin =
     length (filter (\<lambda>(rid, r). is_conflict cid debut fin r) (reservations (working s)))"

definition new_reservation :: "reservation_base \<Rightarrow> nat \<Rightarrow> reservation" where
  "new_reservation d uid =
     \<lparr>car_id = car_id d, type_transaction = type_transaction d, date_debut = date_debut d,
      date_fin = date_fin d, prix_final = prix_final d, res_notes = res_notes d,
      user_id = uid, statut = En_attente\<rparr>"

definition create_reservation ::
  "bool \<Rightarrow> bool \<Rightarrow> bool \<Rightarrow> datetime \<Rightarrow> store \<Rightarrow> reservation_base \<Rightarrow> nat
     \<Rightarrow> (error + nat \<times> reservation) \<times> store" where
  "create_reservation commit_ok refresh_ok response_ok now db d uid =
     (let s = open_session db in
      case (case get_car s (car_id d) of
              None \<Rightarrow> None
            | Some c \<Rightarrow> if is_active c then Some c else None) of
        None \<Rightarrow> (Inl (HTTPException 404 Voiture_non_trouvee), close_session s)
      | Some c \<Rightarrow>
          if disponibilite c \<noteq> Disponible then
            (Inl (HTTPException 400 Voiture_non_disponible), close_session s)
          else if \<not> validate_reservation_dates now (date_debut d) (date_fin d) (type_transaction d) then
            (Inl (HTTPException 400 Dates_invalides), close_session s)
          else if (case date_fin d of
                     None \<Rightarrow> False
                   | Some fin \<Rightarrow> type_transaction d = Location
                        \<and> existing_reservations s (car_id d) (date_debut d) fin > 0) then
            (Inl (HTTPException 400 Deja_reservee), close_session s)
          else if prix_final d \<le> 0 then
            (Inl (HTTPException 400 Prix_invalide), close_session s)
          else
            (let db_reservation = new_reservation d uid;
                 rid = next_id (reservations (working s));
                 s1 = db_add db_reservation s;
                 s2 = (case type_transaction d of
                         Vente \<Rightarrow> set_car_disponibilite (car_id d) Vendu s1
                       | Location \<Rightarrow> set_car_disponibilite (car_id d) Loue s1)
             in case commit_and_refresh commit_ok refresh_ok s2 of
                  Inl s3 \<Rightarrow> (Inl (HTTPException 500 Erreur_creation), close_session s3)
                | Inr s3 \<Rightarrow> (from_orm response_ok (rid, db_reservation), close_session s3)))"


subsection \<open>update\_reservation\_status\<close>

fun valid_transitions :: "reservation_status \<Rightarrow> reservation_status list" where
  "valid_transitions En_attente = [Confirmee, Annulee]"
| "valid_transitions Confirmee = [Terminee, Annulee]"
| "valid_transitions Annulee = []"
| "valid_transitions Terminee = []"

text \<open>
  The status is written first, then the car of the reservation (the relationship
  \<^verbatim>\<open>reservation.car\<close>, loaded by the foreign key) is made available again when the
  new status is \<^verbatim>\<open>annulee\<close>, or \<^verbatim>\<open>terminee\<close> on a rental; there is no test that
  the car was found. Both writes precede the one commit.
\<close>

definition update_reservation_status ::
  "bool \<Rightarrow> bool \<Rightarrow> bool \<Rightarrow> store \<Rightarrow> nat \<Rightarrow> reservation_status \<Rightarrow> user_role
     \<Rightarrow> (error + nat \<times> reservation) \<times> store" where
  "update_reservation_status commit_ok refresh_ok response_ok db rid new_status role =
     (let s = open_session db in
      if role \<noteq> Vendeur then
        (Inl (HTTPException 403 Seuls_les_vendeurs), close_session s)
      else case get_reservation s rid of
        None \<Rightarrow> (Inl (HTTPException 404 Reservation_non_trouvee), close_session s)
      | Some r \<Rightarrow>
          if new_status \<notin> set (valid_transitions (statut r)) then
            (Inl (HTTPException 400 (Transition_invalide (statut r) new_status)), close_session s)
          else
            (let r' = r\<lparr>statut := new_status\<rparr>;
                 s1 = set_reservation rid r' s;
                 car = get_car s1 (car_id r)
             in case (if new_status = Annulee then
                        (case car of None \<Rightarrow> Inl AttributeError
                         | Some c \<Rightarrow> Inr (set_car_disponibilite (car_id r) Disponible s1))
                      else if new_status = Terminee \<and> type_transaction r = Location then
                        (case car of None \<Rightarrow> Inl AttributeError
                         | Some c \<Rightarrow> Inr (set_car_disponibilite (car_id r) Disponible s1))
                      else Inr s1) of
                  Inl e \<Rightarrow> (Inl e, close_session s1)
                | Inr s2 \<Rightarrow>
                    (case commit_and_refresh commit_ok refresh_ok s2 of
                       Inl s3 \<Rightarrow>
                         (Inl (HTTPException 500 Erreur_mise_a_jour_statut), close_session s3)
                     | Inr s3 \<Rightarrow> (from_orm response_ok (rid, r'), close_session s3))))"

subsection \<open>update\_reservation\<close>

text \<open>
  The loop over the fields that were sent, in the order of the schema. One iteration
  (\<open>set_field\<close>) skips a field sent as null and assigns any other value; the iteration
  for the price raises when the price is not positive.
\<close>

definition set_field ::
  "'v option option \<Rightarrow> (reservation \<Rightarrow> 'v \<Rightarrow> reservation) \<Rightarrow> reservation \<Rightarrow> reservation" where
  "set_field sent setter r = (case sent of Some (Some v) \<Rightarrow> setter r v | _ \<Rightarrow> r)"

definition set_fields :: "reservation_update \<Rightarrow> reservation \<Rightarrow> error + reservation" where
  "set_fields u r =
     (let r1 = set_field (upd_type_transaction u) (\<lambda>x v. x\<lparr>type_transaction := v\<rparr>) r;
          r2 = set_field (upd_date_debut u) (\<lambda>x v. x\<lparr>date_debut := v\<rparr>) r1;
          r3 = set_field (upd_date_fin u) (\<lambda>x v. x\<lparr>date_fin := Some v\<rparr>) r2
      in case (case upd_prix_final u of
                 Some (Some v) \<Rightarrow>
                   if v \<le> 0 then Inl (HTTPException 400 Prix_invalide)
                   else Inr (r3\<lparr>prix_final := v\<rparr>)
               | _ \<Rightarrow> Inr r3) of
           Inl e \<Rightarrow> Inl e
         | Inr r4 \<Rightarrow>
             (let r5 = set_field (upd_statut u) (\<lambda>x v. x\<lparr>statut := v\<rparr>) r4;
                  r6 = set_field (upd_notes u) (\<lambda>x v. x\<lparr>res_notes := Some v\<rparr>) r5
              in Inr r6))"

text \<open>
  \<^verbatim>\<open>any(field in update_dict for field in ["date_debut", "date_fin", "type_transaction"])\<close>:
  the field was sent, with a value or as null.
\<close>

definition touches_dates :: "reservation_update \<Rightarrow> bool" where
  "touches_dates u =
     (upd_date_debut u \<noteq> None \<or> upd_date_fin u \<noteq> None \<or> upd_type_transaction u \<noteq> None)"

definition update_reservation ::
  "bool \<Rightarrow> bool \<Rightarrow> bool \<Rightarrow> datetime \<Rightarrow> store \<Rightarrow> nat \<Rightarrow> reservation_update \<Rightarrow> nat \<Rightarrow> user_role
     \<Rightarrow> (error + nat \<times> reservation) \<times> store" where
  "update_reservation commit_ok refresh_ok response_ok now db rid u uid role =
     (let s = open_session db in
      case get_reservation s rid of
        None \<Rightarrow> (Inl (HTTPException 404 Reservation_non_trouvee), close_session s)
      | Some r \<Rightarrow>
          if role = Client \<and> user_id r \<noteq> uid then
            (Inl (HTTPException 403 Modifier_propres_reservations), close_session s)
          else if role = Client \<and> statut r \<noteq> En_attente then
            (Inl (HTTPException 400 Modifier_en_attente), close_session s)
          else
            (case set_fields u r of
               Inl e \<Rightarrow> (Inl e, close_session s)
             | Inr r' \<Rightarrow>
                 (let s1 = set_reservation rid r' s in
                  if touches_dates u
                     \<and> \<not> validate_reservation_dates now
                           (date_debut r') (date_fin r') (type_transaction r')
                  then (Inl (HTTPException 400 Dates_invalides), close_session s1)
                  else (case commit_and_refresh commit_ok refresh_ok s1 of
                          Inl s2 \<Rightarrow>
                            (Inl (HTTPException 500 Erreur_mise_a_jour), close_session s2)
                        | Inr s2 \<Rightarrow> (from_orm response_ok (rid, r'), close_session s2)))))"

subsection \<open>cancel\_reservation\<close>

text \<open>
  The car is looked up by the key stored in the reservation, with no filter on
  \<^verbatim>\<open>is_active\<close>, and written only \<^verbatim>\<open>if car\<close>. The \<^verbatim>\<open>try\<close> holds the commit
  alone, and the function returns \<^verbatim>\<open>True\<close> without building a response.
\<close>

definition cancel_reservation ::
  "bool \<Rightarrow> store \<Rightarrow> nat \<Rightarrow> nat \<Rightarrow> user_role \<Rightarrow> (error + bool) \<times> store" where
  "cancel_reservation commit_ok db rid uid role =
     (let s = open_session db in
      case get_reservation s rid of
        None \<Rightarrow> (Inl (HTTPException 404 Reservation_non_trouvee), close_session s)
      | Some r \<Rightarrow>
          if role = Client \<and> user_id r \<noteq> uid then
            (Inl (HTTPException 403 Annuler_propres_reservations), close_session s)
          else if statut r \<in> set [Annulee, Terminee] then
            (Inl (HTTPException 400 Ne_peut_pas_etre_annulee), close_session s)
          else
            (let s1 = set_reservation rid (r\<lparr>statut := Annulee\<rparr>) s;
                 s2 = (case get_car s1 (car_id r) of
                         None \<Rightarrow> s1
                       | Some c \<Rightarrow> set_car_disponibilite (car_id r) Disponible s1)
             in case db_commit commit_ok s2 of
                  Inr s3 \<Rightarrow> (Inr True, close_session s3)
                | Inl s3 \<Rightarrow>
                    (Inl (HTTPException 500 Erreur_annulation), close_session (db_rollback s3))))"

section \<open>Sequences of operations and the availability invariant\<close>

text \<open>
  One call of the service, with what the environment decides for it: whether the commit
  succeeds, whether the reads after it succeed, whether the response passes its schema and,
  where dates are validated, the current time.
\<close>

datatype operation =
    Create bool bool bool datetime reservation_base nat
  | Transition_status bool bool bool nat reservation_status user_role
  | Update bool bool bool datetime nat reservation_update nat user_role
  | Cancel bool nat nat user_role

fun apply_operation :: "operation \<Rightarrow> store \<Rightarrow> store" where
  "apply_operation (Create commit_ok refresh_ok response_ok now d uid) db =
     snd (create_reservation commit_ok refresh_ok response_ok now db d uid)"
| "apply_operation (Transition_status commit_ok refresh_ok response_ok rid new_status role) db =
     snd (update_reservation_status commit_ok refresh_ok response_ok db rid new_status role)"
| "apply_operation (Update commit_ok refresh_ok response_ok now rid u uid role) db =
     snd (update_reservation commit_ok refresh_ok response_ok now db rid u uid role)"
| "apply_operation (Cancel commit_ok rid uid role) db =
     snd (cancel_reservation commit_ok db rid uid role)"

text \<open>The calls are served one after the other, each on the store the previous one left.\<close>

definition run :: "operation list \<Rightarrow> store \<Rightarrow> store" where
  "run ops db = fold apply_operation ops db"

text \<open>
  A reservation that is pending or confirmed, a sale that is completed, and whether a car
  has a reservation of a given kind.
\<close>

definition active :: "reservation \<Rightarrow> bool" where
  "active r = (statut r = En_attente \<or> statut r = Confirmee)"

definition completed_sale :: "reservation \<Rightarrow> bool" where
  "completed_sale r = (statut r = Terminee \<and> type_transaction r = Vente)"

definition has_reservation :: "store \<Rightarrow> nat \<Rightarrow> (reservation \<Rightarrow> bool) \<Rightarrow> bool" where
  "has_reservation db cid P = list_ex (\<lambda>(rid, r). car_id r = cid \<and> P r) (reservations db)"

definition has_active :: "store \<Rightarrow> nat \<Rightarrow> transaction_type \<Rightarrow> bool" where
  "has_active db cid ty = has_reservation db cid (\<lambda>r. active r \<and> type_transaction r = ty)"

definition has_completed_sale :: "store \<Rightarrow> nat \<Rightarrow> bool" where
  "has_completed_sale db cid = has_reservation db cid completed_sale"

text \<open>
  The availability property in the words of the specification: a car is rented exactly when
  it has a pending or confirmed rental, sold exactly when it has a pending or confirmed
  sale, and available otherwise.
\<close>

definition availability_consistent :: "store \<Rightarrow> bool" where
  "availability_consistent db =
     list_all (\<lambda>(cid, c). (disponibilite c = Loue) = has_active db cid Location
                       \<and> (disponibilite c = Vendu) = has_active db cid Vente
                       \<and> (disponibilite c = Disponible)
                           = (\<not> has_active db cid Location \<and> \<not> has_active db cid Vente))
       (cars db)"

text \<open>
  An update assigns \<^verbatim>\<open>statut\<close> or \<^verbatim>\<open>type_transaction\<close> when it sends one of
  them with a value.
\<close>

definition assigns_status_or_type :: "reservation_update \<Rightarrow> bool" where
  "assigns_status_or_type u =
     ((case upd_statut u of Some (Some v) \<Rightarrow> True | _ \<Rightarrow> False)
      \<or> (case upd_type_transaction u of Some (Some v) \<Rightarrow> True | _ \<Rightarrow> False))"

fun in_scope :: "operation \<Rightarrow> bool" where
  "in_scope (Update commit_ok refresh_ok response_ok now rid u uid role) =
     (\<not> assigns_status_or_type u)"
| "in_scope _ = True"

text \<open>
  What the code maintains: distinct reservation keys; at most one pending or confirmed
  reservation per car; no pending or confirmed reservation on a car that has a completed
  sale; a car rented exactly when it has a pending or confirmed rental; a car sold exactly
  when it has a pending or confirmed sale or a completed sale; a car available exactly when
  it has neither a pending or confirmed reservation nor a completed sale.
\<close>

definition one_active_per_car :: "store \<Rightarrow> bool" where
  "one_active_per_car db =
     list_all (\<lambda>(rid1, r1). list_all (\<lambda>(rid2, r2).
         active r1 \<and> active r2 \<and> car_id r1 = car_id r2 \<longrightarrow> rid1 = rid2) (reservations db))
       (reservations db)"

definition sold_cars_closed :: "store \<Rightarrow> bool" where
  "sold_cars_closed db =
     list_all (\<lambda>(rid, r). active r \<longrightarrow> \<not> has_completed_sale db (car_id r)) (reservations db)"

definition coordinator_invariant :: "store \<Rightarrow> bool" where
  "coordinator_invariant db =
     (distinct (map fst (reservations db))
      \<and> one_active_per_car db
      \<and> sold_cars_closed db
      \<and> list_all (\<lambda>(cid, c).
            (disponibilite c = Loue) = has_active db cid Location
            \<and> (disponibilite c = Vendu) = (has_active db cid Vente \<or> has_completed_sale db cid)
            \<and> (disponibilite c = Disponible)
                = (\<not> has_active db cid Location \<and> \<not> has_active db cid Vente
                   \<and> \<not> has_completed_sale db cid))
          (cars db))"

section \<open>Example data\<close>

text \<open>
  One car, a confirmed rental of it from 1 June to 10 June 2024 (dates written as
  numbers \<open>yyyymmdd\<close>), a pending sale, and a few requests and stores built from them.
\<close>

definition example_car :: car where
  "example_car =
     \<lparr>marque = ''Renault'', modele = ''Clio'', couleur = ''bleu'', motorisation = ''essence'',
      prix = 15000, disponibilite = Disponible, description = None, kilometrage = Some 42000,
      annee = Some 2020, image_url = None, is_active = True\<rparr>"

definition rental_june :: reservation where
  "rental_june =
     \<lparr>car_id = 1, type_transaction = Location, date_debut = 20240601, date_fin = Some 20240610,
      prix_final = 450, res_notes = None, user_id = 7, statut = Confirmee\<rparr>"

definition db_available_with_rental :: store where
  "db_available_with_rental = \<lparr>cars = [(1, example_car)], reservations = [(1, rental_june)]\<rparr>"

definition request_touching :: reservation_base where
  "request_touching =
     \<lparr>car_id = 1, type_transaction = Location, date_debut = 20240610, date_fin = Some 20240615,
      prix_final = 300, res_notes = None\<rparr>"

definition db_rented :: store where
  "db_rented =
     \<lparr>cars = [(1, example_car\<lparr>disponibilite := Loue\<rparr>)], reservations = [(1, rental_june)]\<rparr>"

definition db_dangling :: store where
  "db_dangling = \<lparr>cars = [], reservations = [(1, rental_june)]\<rparr>"

definition db_initial :: store where
  "db_initial = \<lparr>cars = [(1, example_car)], reservations = []\<rparr>"

definition request_sale :: reservation_base where
  "request_sale =
     \<lparr>car_id = 1, type_transaction = Vente, date_debut = 20240601, date_fin = None,
      prix_final = 14000, res_notes = None\<rparr>"

definition sale_pending :: reservation where
  "sale_pending =
     \<lparr>car_id = 1, type_transaction = Vente, date_debut = 20240601, date_fin = None,
      prix_final = 14000, res_notes = None, user_id = 7, statut = En_attente\<rparr>"

definition db_sold :: store where
  "db_sold =
     \<lparr>cars = [(1, example_car\<lparr>disponibilite := Vendu\<rparr>)], reservations = [(1, sale_pending)]\<rparr>"

definition update_to_rental :: reservation_update where
  "update_to_rental =
     \<lparr>upd_type_transaction = Some (Some Location), upd_date_debut = None,
      upd_date_fin = Some (Some 20240610), upd_prix_final = None, upd_statut = None,
      upd_notes = None\<rparr>"


definition db_sold_and_rental :: store where
  "db_sold_and_rental =
     \<lparr>cars = [(1, example_car\<lparr>disponibilite := Vendu\<rparr>)],
      reservations = [(1, sale_pending), (2, rental_june)]\<rparr>"

text \<open>
  Three runs from the store with one available car and no reservation: a sale that is
  confirmed and completed; a sale that its owner turns into a rental; a rental that is
  confirmed and then cancelled by its owner.
\<close>

definition scenario_completed_sale :: "operation list" where
  "scenario_completed_sale =
     [Create True True True 20240101 request_sale 7,
      Transition_status True True True 1 Confirmee Vendeur,
      Transition_status True True True 1 Terminee Vendeur]"

definition scenario_retyped :: "operation list" where
  "scenario_retyped =
     [Create True True True 20240101 request_sale 7,
      Update True True True 20240101 1 update_to_rental 7 Client]"

definition scenario_rental_cancelled :: "operation list" where
  "scenario_rental_cancelled =
     [Create True True True 20240101 request_touching 7,
      Transition_status True True True 1 Confirmee Vendeur,
      Cancel True 1 7 Client]"

section \<open>Properties of the single operations\<close>

lemma map_of_update_rows:
  "map_of (update_rows k f rows) x = (if x = k then map_option f (map_of rows k) else map_of rows x)"
  by (induction rows) (auto simp: update_rows_def)

lemma update_rows_absent: "map_of rows k = None \<Longrightarrow> update_rows k f rows = rows"
  by (induction rows) (auto simp: update_rows_def split: if_splits)

lemmas session_defs = open_session_def close_session_def db_commit_def db_rollback_def
  db_refresh_def commit_and_refresh_def from_orm_def
  get_car_def get_reservation_def set_car_disponibilite_def set_reservation_def db_add_def

lemma reservation_base_valid_new:
  "reservation_base_valid (new_reservation d uid) = reservation_base_valid d"
  by (cases "date_fin d") (simp_all add: reservation_base_valid_def new_reservation_def)

lemma reservation_base_valid_statut:
  "reservation_base_valid (r\<lparr>statut := s\<rparr>) = reservation_base_valid r"
  by (cases "date_fin r") (simp_all add: reservation_base_valid_def)

lemma existing_reservations_pos:
  "(existing_reservations s cid debut fin > 0)
     = (\<exists>(rid, r) \<in> set (reservations (working s)). is_conflict cid debut fin r)"
  by (auto simp: existing_reservations_def filter_empty_conv)

text \<open>
  Claim C2. A rental request on an existing, active, available car with valid dates is
  refused with the conflict error (400, \<open>Deja_reservee\<close>) exactly when some reservation
  of the same car, of type rental and pending or confirmed, starts before the end of the
  new interval and ends after its start. When every such reservation ends where the new one
  starts, the price is positive and the commit succeeds, the request is accepted: the
  reservation is stored and the car is rented, and the call returns the new reservation
  when the reads after the commit succeed and the response passes its schema.
\<close>

theorem create_reservation_conflict_iff:
  assumes car: "map_of (cars db) (car_id d) = Some c" "is_active c" "disponibilite c = Disponible"
    and rental: "type_transaction d = Location"
    and valid: "validate_reservation_dates now (date_debut d) (date_fin d) (type_transaction d)"
  shows "((fst (create_reservation commit_ok refresh_ok response_ok now db d uid)
            = Inl (HTTPException 400 Deja_reservee))
          = (\<exists>(rid, r) \<in> set (reservations db).
               car_id r = car_id d \<and> type_transaction r = Location
               \<and> (statut r = En_attente \<or> statut r = Confirmee)
               \<and> (\<exists>new_end old_end. date_fin d = Some new_end \<and> date_fin r = Some old_end
                     \<and> date_debut r < new_end \<and> old_end > date_debut d)))
       \<and> ((\<forall>(rid, r) \<in> set (reservations db).
               car_id r = car_id d \<and> type_transaction r = Location
               \<and> (statut r = En_attente \<or> statut r = Confirmee)
               \<longrightarrow> date_fin r = Some (date_debut d))
            \<and> prix_final d > 0 \<and> commit_ok
            \<longrightarrow> snd (create_reservation commit_ok refresh_ok response_ok now db d uid)
                  = \<lparr>cars = update_rows (car_id d) (\<lambda>c. c\<lparr>disponibilite := Loue\<rparr>) (cars db),
                     reservations = reservations db
                                    @ [(next_id (reservations db), new_reservation d uid)]\<rparr>
                \<and> (refresh_ok \<and> response_ok \<and> reservation_base_valid d
                    \<longrightarrow> fst (create_reservation commit_ok refresh_ok response_ok now db d uid)
                          = Inr (next_id (reservations db), new_reservation d uid)))"
proof -
  from valid rental obtain fin where fin: "date_fin d = Some fin"
    by (auto simp: validate_reservation_dates_def split: option.splits if_splits)
  have conf: "(\<exists>(rid, r) \<in> set (reservations db). is_conflict (car_id d) (date_debut d) fin r)
       = (\<exists>(rid, r) \<in> set (reservations db).
               car_id r = car_id d \<and> type_transaction r = Location
               \<and> (statut r = En_attente \<or> statut r = Confirmee)
               \<and> (\<exists>new_end old_end. date_fin d = Some new_end \<and> date_fin r = Some old_end
                     \<and> date_debut r < new_end \<and> old_end > date_debut d))"
  proof -
    have "is_conflict (car_id d) (date_debut d) fin r
       = (car_id r = car_id d \<and> type_transaction r = Location
               \<and> (statut r = En_attente \<or> statut r = Confirmee)
               \<and> (\<exists>new_end old_end. date_fin d = Some new_end \<and> date_fin r = Some old_end
                     \<and> date_debut r < new_end \<and> old_end > date_debut d))" for r
      using fin by (cases "date_fin r") (auto simp: is_conflict_def)
    then show ?thesis by simp
  qed
  have first: "(fst (create_reservation commit_ok refresh_ok response_ok now db d uid)
                  = Inl (HTTPException 400 Deja_reservee))
      = (\<exists>(rid, r) \<in> set (reservations db). is_conflict (car_id d) (date_debut d) fin r)"
    using car rental valid fin
    by (simp add: create_reservation_def Let_def existing_reservations_pos session_defs)
  have second: "snd (create_reservation commit_ok refresh_ok response_ok now db d uid)
                  = \<lparr>cars = update_rows (car_id d) (\<lambda>c. c\<lparr>disponibilite := Loue\<rparr>) (cars db),
                     reservations = reservations db
                                    @ [(next_id (reservations db), new_reservation d uid)]\<rparr>
                \<and> (refresh_ok \<and> response_ok \<and> reservation_base_valid d
                    \<longrightarrow> fst (create_reservation commit_ok refresh_ok response_ok now db d uid)
                          = Inr (next_id (reservations db), new_reservation d uid))"
    if none: "\<forall>(rid, r) \<in> set (reservations db).
               car_id r = car_id d \<and> type_transaction r = Location
               \<and> (statut r = En_attente \<or> statut r = Confirmee)
               \<longrightarrow> date_fin r = Some (date_debut d)"
      and "prix_final d > 0" "commit_ok"
  proof -
    have "\<not> (\<exists>(rid, r) \<in> set (reservations db). is_conflict (car_id d) (date_debut d) fin r)"
      using none by (fastforce simp: is_conflict_def split: option.splits)
    then show ?thesis
      using car rental valid fin that(2,3)
      by (simp add: create_reservation_def Let_def existing_reservations_pos session_defs
          reservation_base_valid_new)
  qed
  show ?thesis using first conf second by blast
qed

theorem create_reservation_conflict_iff_witness:
  "map_of (cars db_available_with_rental) (car_id request_touching) = Some example_car
   \<and> is_active example_car \<and> disponibilite example_car = Disponible
   \<and> type_transaction request_touching = Location
   \<and> validate_reservation_dates 20240101 (date_debut request_touching)
        (date_fin request_touching) (type_transaction request_touching)
   \<and> date_fin rental_june = Some (date_debut request_touching)
   \<and> fst (create_reservation True True True 20240101 db_available_with_rental request_touching 8)
       \<noteq> Inl (HTTPException 400 Deja_reservee)
   \<and> create_reservation True True True 20240101 db_available_with_rental request_touching 8
       = (Inr (2, new_reservation request_touching 8),
          \<lparr>cars = [(1, example_car\<lparr>disponibilite := Loue\<rparr>)],
           reservations = [(1, rental_june), (2, new_reservation request_touching 8)]\<rparr>)"
proof -
  have h1: "map_of (cars db_available_with_rental) (car_id request_touching) = Some example_car"
    by (simp add: db_available_with_rental_def request_touching_def)
  have h2: "is_active example_car" and h3: "disponibilite example_car = Disponible"
    by (simp_all add: example_car_def)
  have h4: "type_transaction request_touching = Location"
    by (simp add: request_touching_def)
  have h5: "validate_reservation_dates 20240101 (date_debut request_touching)
        (date_fin request_touching) (type_transaction request_touching)"
    by (simp add: request_touching_def validate_reservation_dates_def)
  have h6: "date_fin rental_june = Some (date_debut request_touching)"
    by (simp add: request_touching_def rental_june_def)
  have t: "\<forall>(rid, r) \<in> set (reservations db_available_with_rental).
               car_id r = car_id request_touching \<and> type_transaction r = Location
               \<and> (statut r = En_attente \<or> statut r = Confirmee)
               \<longrightarrow> date_fin r = Some (date_debut request_touching)"
    by (simp add: db_available_with_rental_def h6)
  have p: "prix_final request_touching > 0" "reservation_base_valid request_touching"
    by (simp_all add: request_touching_def reservation_base_valid_def)
  have c: "cars db_available_with_rental = [(1, example_car)]"
    "reservations db_available_with_rental = [(1, rental_june)]"
    "car_id request_touching = 1"
    by (simp_all add: db_available_with_rental_def request_touching_def)
  show ?thesis
    using h1 h2 h3 h4 h5 h6 t p
      create_reservation_conflict_iff [OF h1 h2 h3 h4 h5, of True True True 8]
    by (simp add: c update_rows_def prod_eq_iff next_id_def)
qed

lemma valid_transitions_edges:
  "(new_status \<in> set (valid_transitions cur))
     = ((cur = En_attente \<and> (new_status = Confirmee \<or> new_status = Annulee))
        \<or> (cur = Confirmee \<and> (new_status = Terminee \<or> new_status = Annulee)))"
  by (cases cur) auto

lemma update_reservation_status_no_row:
  "map_of (reservations db) rid = None
   \<Longrightarrow> snd (update_reservation_status commit_ok refresh_ok response_ok db rid new_status role) = db"
  by (simp add: update_reservation_status_def session_defs Let_def)

lemma update_reservation_status_forbidden:
  "role \<noteq> Vendeur
   \<Longrightarrow> update_reservation_status commit_ok refresh_ok response_ok db rid new_status role
       = (Inl (HTTPException 403 Seuls_les_vendeurs), db)"
  by (simp add: update_reservation_status_def session_defs Let_def)

lemma update_reservation_status_invalid:
  assumes "map_of (reservations db) rid = Some r"
    and "new_status \<notin> set (valid_transitions (statut r))"
  shows "update_reservation_status commit_ok refresh_ok response_ok db rid new_status Vendeur
           = (Inl (HTTPException 400 (Transition_invalide (statut r) new_status)), db)"
  using assms by (simp add: update_reservation_status_def session_defs Let_def)

text \<open>The outcome of a status change along an edge, case by case.\<close>

lemma update_reservation_status_edge:
  assumes "map_of (reservations db) rid = Some r"
    and "new_status \<in> set (valid_transitions (statut r))"
  shows "update_reservation_status commit_ok refresh_ok response_ok db rid new_status Vendeur
           = (if (new_status = Annulee \<or> (new_status = Terminee \<and> type_transaction r = Location))
                 \<and> map_of (cars db) (car_id r) = None
              then (Inl AttributeError, db)
              else if \<not> commit_ok
              then (Inl (HTTPException 500 Erreur_mise_a_jour_statut), db)
              else (if \<not> refresh_ok then Inl (HTTPException 500 Erreur_mise_a_jour_statut)
                    else if \<not> (reservation_base_valid r \<and> response_ok)
                    then Inl ResponseValidationError
                    else Inr (rid, r\<lparr>statut := new_status\<rparr>),
                    \<lparr>cars = (if new_status = Annulee
                                \<or> (new_status = Terminee \<and> type_transaction r = Location)
                             then update_rows (car_id r) (\<lambda>c. c\<lparr>disponibilite := Disponible\<rparr>)
                                    (cars db)
                             else cars db),
                     reservations = update_rows rid (\<lambda>_. r\<lparr>statut := new_status\<rparr>)
                                      (reservations db)\<rparr>))"
  using assms
  by (cases "map_of (cars db) (car_id r)")
     (simp_all add: update_reservation_status_def session_defs Let_def
        reservation_base_valid_statut)

text \<open>
  Claim C3, as amended. For an existing reservation and the privileged role, a pair of
  current and new status that is not one of the four edges pending to confirmed, pending
  to cancelled, confirmed to completed, confirmed to cancelled (among them every change out
  of cancelled or completed) fails with the invalid-transition error and leaves the store
  as it was. A change along an edge is never refused as an invalid transition, and it
  succeeds exactly when the commit and the reads after the commit succeed, the row and
  its relations pass the response schema and, where the car is to be released (new status
  cancelled, or completed on a rental), the car row of the reservation exists; otherwise
  it fails with another error.
\<close>

theorem transition_edges:
  assumes "map_of (reservations db) rid = Some r"
  shows "(\<not> ((statut r = En_attente \<and> (new_status = Confirmee \<or> new_status = Annulee))
              \<or> (statut r = Confirmee \<and> (new_status = Terminee \<or> new_status = Annulee)))
          \<longrightarrow> update_reservation_status commit_ok refresh_ok response_ok db rid new_status Vendeur
                = (Inl (HTTPException 400 (Transition_invalide (statut r) new_status)), db))
       \<and> (((statut r = En_attente \<and> (new_status = Confirmee \<or> new_status = Annulee))
           \<or> (statut r = Confirmee \<and> (new_status = Terminee \<or> new_status = Annulee)))
          \<longrightarrow> fst (update_reservation_status commit_ok refresh_ok response_ok db rid new_status
                     Vendeur)
                \<noteq> Inl (HTTPException 400 (Transition_invalide (statut r) new_status))
              \<and> (fst (update_reservation_status commit_ok refresh_ok response_ok db rid new_status
                        Vendeur)
                    = Inr (rid, r\<lparr>statut := new_status\<rparr>))
                  = (commit_ok \<and> refresh_ok \<and> response_ok \<and> reservation_base_valid r
                     \<and> ((new_status = Annulee
                          \<or> (new_status = Terminee \<and> type_transaction r = Location))
                         \<longrightarrow> map_of (cars db) (car_id r) \<noteq> None))
              \<and> (\<not> (commit_ok \<and> refresh_ok \<and> response_ok \<and> reservation_base_valid r
                      \<and> ((new_status = Annulee
                           \<or> (new_status = Terminee \<and> type_transaction r = Location))
                          \<longrightarrow> map_of (cars db) (car_id r) \<noteq> None))
                  \<longrightarrow> isl (fst (update_reservation_status commit_ok refresh_ok response_ok db rid
                                 new_status Vendeur))))"
proof (cases "new_status \<in> set (valid_transitions (statut r))")
  case True
  show ?thesis
    using True unfolding update_reservation_status_edge [OF assms True]
    by (simp add: valid_transitions_edges) blast
next
  case False
  then show ?thesis
    using update_reservation_status_invalid [OF assms False]
    by (simp add: valid_transitions_edges)
qed

theorem transition_edges_witness:
  "map_of (reservations db_rented) 1 = Some rental_june
   \<and> statut rental_june = Confirmee
   \<and> map_of (cars db_rented) (car_id rental_june) \<noteq> None
   \<and> fst (update_reservation_status True True True db_rented 1 Annulee Vendeur)
       = Inr (1, rental_june\<lparr>statut := Annulee\<rparr>)
   \<and> update_reservation_status True True True db_rented 1 En_attente Vendeur
       = (Inl (HTTPException 400 (Transition_invalide Confirmee En_attente)), db_rented)"
proof -
  have h: "map_of (reservations db_rented) 1 = Some rental_june"
    by (simp add: db_rented_def)
  have s: "statut rental_june = Confirmee"
    by (simp add: rental_june_def)
  have c: "map_of (cars db_rented) (car_id rental_june) \<noteq> None"
    "reservation_base_valid rental_june"
    by (simp_all add: db_rented_def rental_june_def reservation_base_valid_def)
  show ?thesis
    using h s c transition_edges [OF h, of Annulee True True True]
      transition_edges [OF h, of En_attente True True True]
    by simp
qed

theorem transition_edges_counterexample:
  "map_of (reservations db_dangling) 1 = Some rental_june
   \<and> statut rental_june = Confirmee
   \<and> update_reservation_status True True True db_dangling 1 Annulee Vendeur
       = (Inl AttributeError, db_dangling)
   \<and> map_of (reservations db_rented) 1 = Some rental_june
   \<and> fst (update_reservation_status True False True db_rented 1 Annulee Vendeur)
       = Inl (HTTPException 500 Erreur_mise_a_jour_statut)
   \<and> fst (update_reservation_status True True False db_rented 1 Annulee Vendeur)
       = Inl ResponseValidationError"
  by (simp add: update_reservation_status_def session_defs Let_def db_dangling_def db_rented_def
      rental_june_def update_rows_def reservation_base_valid_def)

text \<open>
  Claim C4. After a successful status change to cancelled, or to completed on a rental,
  the car of the reservation is available and no other column of any car has changed;
  after any other successful status change the table of cars is the same as before.
\<close>

theorem transition_car_effect:
  assumes "map_of (reservations db) rid = Some r"
    and "fst (update_reservation_status commit_ok refresh_ok response_ok db rid new_status role)
           = Inr res"
  shows "cars (snd (update_reservation_status commit_ok refresh_ok response_ok db rid new_status
                      role))
           = (if new_status = Annulee \<or> (new_status = Terminee \<and> type_transaction r = Location)
              then update_rows (car_id r) (\<lambda>c. c\<lparr>disponibilite := Disponible\<rparr>) (cars db)
              else cars db)
       \<and> (new_status = Annulee \<or> (new_status = Terminee \<and> type_transaction r = Location)
          \<longrightarrow> (\<exists>c. map_of (cars db) (car_id r) = Some c
                  \<and> map_of (cars (snd (update_reservation_status commit_ok refresh_ok response_ok
                                          db rid new_status role)))
                       (car_id r) = Some (c\<lparr>disponibilite := Disponible\<rparr>)))"
proof -
  have role: "role = Vendeur"
    using assms(2) update_reservation_status_forbidden [of role] by (cases role) auto
  have edge: "new_status \<in> set (valid_transitions (statut r))"
    using assms(2) update_reservation_status_invalid [OF assms(1)] unfolding role by fastforce
  show ?thesis
    using assms(2) unfolding role update_reservation_status_edge [OF assms(1) edge]
    by (auto simp: map_of_update_rows split: if_splits)
qed

theorem transition_car_effect_witness:
  "map_of (reservations db_rented) 1 = Some rental_june
   \<and> fst (update_reservation_status True True True db_rented 1 Annulee Vendeur)
       = Inr (1, rental_june\<lparr>statut := Annulee\<rparr>)
   \<and> cars (snd (update_reservation_status True True True db_rented 1 Annulee Vendeur))
       = [(1, example_car)]"
proof -
  have h: "map_of (reservations db_rented) 1 = Some rental_june"
    by (simp add: db_rented_def)
  have ok: "fst (update_reservation_status True True True db_rented 1 Annulee Vendeur)
       = Inr (1, rental_june\<lparr>statut := Annulee\<rparr>)"
    by (simp add: update_reservation_status_def session_defs Let_def db_rented_def
        rental_june_def update_rows_def reservation_base_valid_def)
  show ?thesis
    using h ok transition_car_effect [OF h ok]
    by (simp add: rental_june_def) (simp add: db_rented_def update_rows_def example_car_def)
qed

lemma create_reservation_no_car:
  "map_of (cars db) (car_id d) = None
   \<Longrightarrow> create_reservation commit_ok refresh_ok response_ok now db d uid
       = (Inl (HTTPException 404 Voiture_non_trouvee), db)"
  by (simp add: create_reservation_def session_defs Let_def)

text \<open>
  The outcome of create on a car that was found: refused before any write, or written and
  committed, or written and rolled back.
\<close>

lemma create_reservation_found:
  assumes "map_of (cars db) (car_id d) = Some c"
  shows "create_reservation commit_ok refresh_ok response_ok now db d uid
           = (if \<not> is_active c then (Inl (HTTPException 404 Voiture_non_trouvee), db)
              else if disponibilite c \<noteq> Disponible
              then (Inl (HTTPException 400 Voiture_non_disponible), db)
              else if \<not> validate_reservation_dates now (date_debut d) (date_fin d)
                        (type_transaction d)
              then (Inl (HTTPException 400 Dates_invalides), db)
              else if (case date_fin d of None \<Rightarrow> False
                       | Some fin \<Rightarrow> type_transaction d = Location
                           \<and> (\<exists>(rid, r) \<in> set (reservations db).
                                 is_conflict (car_id d) (date_debut d) fin r))
              then (Inl (HTTPException 400 Deja_reservee), db)
              else if prix_final d \<le> 0 then (Inl (HTTPException 400 Prix_invalide), db)
              else if \<not> commit_ok then (Inl (HTTPException 500 Erreur_creation), db)
              else (if \<not> refresh_ok then Inl (HTTPException 500 Erreur_creation)
                    else if \<not> (reservation_base_valid d \<and> response_ok)
                    then Inl ResponseValidationError
                    else Inr (next_id (reservations db), new_reservation d uid),
                    \<lparr>cars = update_rows (car_id d)
                               (\<lambda>c. c\<lparr>disponibilite := (case type_transaction d of
                                                           Vente \<Rightarrow> Vendu | Location \<Rightarrow> Loue)\<rparr>)
                               (cars db),
                     reservations = reservations db
                                    @ [(next_id (reservations db), new_reservation d uid)]\<rparr>))"
  using assms
  by (cases "type_transaction d"; cases "date_fin d")
     (simp_all add: create_reservation_def session_defs Let_def existing_reservations_pos
        reservation_base_valid_new)




text \<open>
  Claim C6. For an existing reservation, cancel is refused with 403 when the actor is a
  client who does not own it; otherwise it is refused with 400 when the status is cancelled
  or completed; otherwise, when the commit succeeds, it returns true, the reservation is
  cancelled and the car of the reservation is available.
\<close>

theorem cancel_semantics:
  assumes "map_of (reservations db) rid = Some r"
  shows "(role = Client \<and> user_id r \<noteq> uid
          \<longrightarrow> cancel_reservation commit_ok db rid uid role
                = (Inl (HTTPException 403 Annuler_propres_reservations), db))
       \<and> (\<not> (role = Client \<and> user_id r \<noteq> uid) \<and> (statut r = Annulee \<or> statut r = Terminee)
          \<longrightarrow> cancel_reservation commit_ok db rid uid role
                = (Inl (HTTPException 400 Ne_peut_pas_etre_annulee), db))
       \<and> (\<not> (role = Client \<and> user_id r \<noteq> uid) \<and> statut r \<noteq> Annulee \<and> statut r \<noteq> Terminee
            \<and> commit_ok
          \<longrightarrow> fst (cancel_reservation commit_ok db rid uid role) = Inr True
              \<and> map_of (reservations (snd (cancel_reservation commit_ok db rid uid role))) rid
                  = Some (r\<lparr>statut := Annulee\<rparr>)
              \<and> cars (snd (cancel_reservation commit_ok db rid uid role))
                  = update_rows (car_id r) (\<lambda>c. c\<lparr>disponibilite := Disponible\<rparr>) (cars db)
              \<and> (\<forall>c. map_of (cars db) (car_id r) = Some c
                    \<longrightarrow> map_of (cars (snd (cancel_reservation commit_ok db rid uid role))) (car_id r)
                          = Some (c\<lparr>disponibilite := Disponible\<rparr>)))"
  using assms
  by (auto simp: cancel_reservation_def session_defs Let_def map_of_update_rows
      update_rows_absent split: option.splits)

theorem cancel_semantics_witness:
  "map_of (reservations db_rented) 1 = Some rental_june
   \<and> cancel_reservation True db_rented 1 8 Client
       = (Inl (HTTPException 403 Annuler_propres_reservations), db_rented)
   \<and> fst (cancel_reservation True db_rented 1 7 Client) = Inr True
   \<and> map_of (reservations (snd (cancel_reservation True db_rented 1 7 Client))) 1
       = Some (rental_june\<lparr>statut := Annulee\<rparr>)
   \<and> cars (snd (cancel_reservation True db_rented 1 7 Client)) = [(1, example_car)]"
proof -
  have h: "map_of (reservations db_rented) 1 = Some rental_june"
    by (simp add: db_rented_def)
  show ?thesis
    using h cancel_semantics [OF h, of Client 8 True] cancel_semantics [OF h, of Client 7 True]
    by (simp add: rental_june_def) (simp add: db_rented_def update_rows_def example_car_def)
qed

text \<open>
  Claim C9. No call of update changes the table of cars, whatever fields it sets.
\<close>

theorem update_reservation_cars_unchanged:
  "cars (snd (update_reservation commit_ok refresh_ok response_ok now db rid u uid role)) = cars db"
  by (simp add: update_reservation_def session_defs Let_def split: option.splits sum.splits)

theorem update_reservation_cars_unchanged_witness:
  "fst (update_reservation True True True 20240101 db_sold 1 update_to_rental 7 Client)
     = Inr (1, sale_pending\<lparr>type_transaction := Location, date_fin := Some 20240610\<rparr>)
   \<and> cars (snd (update_reservation True True True 20240101 db_sold 1 update_to_rental 7 Client))
     = [(1, example_car\<lparr>disponibilite := Vendu\<rparr>)]"
proof -
  have "fst (update_reservation True True True 20240101 db_sold 1 update_to_rental 7 Client)
     = Inr (1, sale_pending\<lparr>type_transaction := Location, date_fin := Some 20240610\<rparr>)"
    by (simp add: update_reservation_def session_defs Let_def db_sold_def sale_pending_def
        update_to_rental_def set_fields_def set_field_def touches_dates_def validate_reservation_dates_def
        reservation_base_valid_def)
  then show ?thesis
    using update_reservation_cars_unchanged [of True True True 20240101 db_sold 1 update_to_rental 7 Client]
    by (simp add: db_sold_def)
qed

text \<open>
  Claim C10. When an authorised actor cancels a pending or confirmed reservation whose
  car key matches no car row, the call succeeds: the reservation is cancelled, the table
  of cars is untouched and no error is raised for the missing car.
\<close>

theorem cancel_dangling_car:
  assumes "map_of (reservations db) rid = Some r"
    and "\<not> (role = Client \<and> user_id r \<noteq> uid)"
    and "statut r \<noteq> Annulee" "statut r \<noteq> Terminee"
    and "map_of (cars db) (car_id r) = None"
  shows "cancel_reservation True db rid uid role
           = (Inr True,
              db\<lparr>reservations := update_rows rid (\<lambda>_. r\<lparr>statut := Annulee\<rparr>) (reservations db)\<rparr>)"
  using assms
  by (simp add: cancel_reservation_def session_defs Let_def)

theorem cancel_dangling_car_witness:
  "map_of (reservations db_dangling) 1 = Some rental_june
   \<and> \<not> (Client = Client \<and> user_id rental_june \<noteq> 7)
   \<and> statut rental_june \<noteq> Annulee \<and> statut rental_june \<noteq> Terminee
   \<and> map_of (cars db_dangling) (car_id rental_june) = None
   \<and> cancel_reservation True db_dangling 1 7 Client
       = (Inr True, \<lparr>cars = [], reservations = [(1, rental_june\<lparr>statut := Annulee\<rparr>)]\<rparr>)"
proof -
  have h1: "map_of (reservations db_dangling) 1 = Some rental_june"
    by (simp add: db_dangling_def)
  have h2: "\<not> (Client = Client \<and> user_id rental_june \<noteq> 7)"
    and h3: "statut rental_june \<noteq> Annulee" and h4: "statut rental_june \<noteq> Terminee"
    by (simp_all add: rental_june_def)
  have h5: "map_of (cars db_dangling) (car_id rental_june) = None"
    by (simp add: db_dangling_def)
  show ?thesis
    using h1 h2 h3 h4 h5 cancel_dangling_car [OF h1 h2 h3 h4 h5]
    by (simp add: db_dangling_def update_rows_def)
qed



text \<open>
  Claim C8. For an existing reservation: a client who does not own it gets 403, a
  client who owns it gets 400 unless its status is pending. Whenever an update that sent
  \<^verbatim>\<open>date_debut\<close>, \<^verbatim>\<open>date_fin\<close> or \<^verbatim>\<open>type_transaction\<close> succeeds, the stored
  result satisfies the date validation of create, and when the result does not satisfy
  it the update is refused with 400 and nothing is stored. The outcome depends on the
  updated reservation alone, never on the other rows: no overlap is looked for.
\<close>

theorem update_guard_and_revalidation:
  assumes "map_of (reservations db) rid = Some r"
  shows "(role = Client \<and> user_id r \<noteq> uid
          \<longrightarrow> update_reservation commit_ok refresh_ok response_ok now db rid u uid role
                = (Inl (HTTPException 403 Modifier_propres_reservations), db))
       \<and> (role = Client \<and> user_id r = uid \<and> statut r \<noteq> En_attente
          \<longrightarrow> update_reservation commit_ok refresh_ok response_ok now db rid u uid role
                = (Inl (HTTPException 400 Modifier_en_attente), db))
       \<and> (\<forall>r'. fst (update_reservation commit_ok refresh_ok response_ok now db rid u uid role) = Inr (rid, r')
                \<and> touches_dates u
          \<longrightarrow> validate_reservation_dates now (date_debut r') (date_fin r') (type_transaction r')
              \<and> map_of (reservations (snd (update_reservation commit_ok refresh_ok response_ok now db rid u uid role))) rid
                  = Some r')
       \<and> (\<forall>r'. \<not> (role = Client \<and> (user_id r \<noteq> uid \<or> statut r \<noteq> En_attente))
                \<and> set_fields u r = Inr r' \<and> touches_dates u
                \<and> \<not> validate_reservation_dates now (date_debut r') (date_fin r') (type_transaction r')
          \<longrightarrow> update_reservation commit_ok refresh_ok response_ok now db rid u uid role
                = (Inl (HTTPException 400 Dates_invalides), db))
       \<and> (\<forall>db2. map_of (reservations db2) rid = Some r
          \<longrightarrow> fst (update_reservation commit_ok refresh_ok response_ok now db2 rid u uid role)
              = fst (update_reservation commit_ok refresh_ok response_ok now db rid u uid role))"
proof -
  have a: "role = Client \<and> user_id r \<noteq> uid
          \<longrightarrow> update_reservation commit_ok refresh_ok response_ok now db rid u uid role
                = (Inl (HTTPException 403 Modifier_propres_reservations), db)"
    using assms by (simp add: update_reservation_def session_defs)
  have b: "role = Client \<and> user_id r = uid \<and> statut r \<noteq> En_attente
          \<longrightarrow> update_reservation commit_ok refresh_ok response_ok now db rid u uid role
                = (Inl (HTTPException 400 Modifier_en_attente), db)"
    using assms by (simp add: update_reservation_def session_defs)
  have c: "validate_reservation_dates now (date_debut r') (date_fin r') (type_transaction r')
              \<and> map_of (reservations (snd (update_reservation commit_ok refresh_ok response_ok now db rid u uid role))) rid
                  = Some r'"
    if "fst (update_reservation commit_ok refresh_ok response_ok now db rid u uid role) = Inr (rid, r')"
      and "touches_dates u" for r'
    using assms that
    by (auto simp: update_reservation_def session_defs Let_def map_of_update_rows
        split: if_splits sum.splits)
  have d: "update_reservation commit_ok refresh_ok response_ok now db rid u uid role
                = (Inl (HTTPException 400 Dates_invalides), db)"
    if "\<not> (role = Client \<and> (user_id r \<noteq> uid \<or> statut r \<noteq> En_attente))"
      and "set_fields u r = Inr r'" "touches_dates u"
      and "\<not> validate_reservation_dates now (date_debut r') (date_fin r') (type_transaction r')"
    for r'
    using assms that by (auto simp: update_reservation_def session_defs Let_def)
  have e: "fst (update_reservation commit_ok refresh_ok response_ok now db2 rid u uid role)
              = fst (update_reservation commit_ok refresh_ok response_ok now db rid u uid role)"
    if "map_of (reservations db2) rid = Some r" for db2
    using assms that
    by (simp add: update_reservation_def session_defs Let_def split: sum.splits)
  show ?thesis using a b c d e by blast
qed

theorem update_guard_and_revalidation_witness:
  "map_of (reservations db_sold_and_rental) 1 = Some sale_pending
   \<and> map_of (reservations db_sold) 1 = Some sale_pending
   \<and> update_reservation True True True 20240101 db_sold_and_rental 1 update_to_rental 8 Client
       = (Inl (HTTPException 403 Modifier_propres_reservations), db_sold_and_rental)
   \<and> touches_dates update_to_rental
   \<and> fst (update_reservation True True True 20240101 db_sold_and_rental 1 update_to_rental 7 Client)
       = Inr (1, sale_pending\<lparr>type_transaction := Location, date_fin := Some 20240610\<rparr>)
   \<and> validate_reservation_dates 20240101 20240601 (Some 20240610) Location
   \<and> is_conflict 1 20240601 20240610 rental_june"
proof -
  have h: "map_of (reservations db_sold_and_rental) 1 = Some sale_pending"
    by (simp add: db_sold_and_rental_def)
  have h2: "map_of (reservations db_sold) 1 = Some sale_pending"
    by (simp add: db_sold_def)
  have t: "touches_dates update_to_rental"
    by (simp add: touches_dates_def update_to_rental_def)
  have ok: "fst (update_reservation True True True 20240101 db_sold 1 update_to_rental 7 Client)
       = Inr (1, sale_pending\<lparr>type_transaction := Location, date_fin := Some 20240610\<rparr>)"
    by (simp add: update_reservation_def session_defs Let_def db_sold_def sale_pending_def
        update_to_rental_def set_fields_def set_field_def touches_dates_def validate_reservation_dates_def
        reservation_base_valid_def)
  have c: "is_conflict 1 20240601 20240610 rental_june"
    by (simp add: is_conflict_def rental_june_def)
  note w8 = update_guard_and_revalidation
              [OF h, of Client 8 True True True 20240101 update_to_rental]
  note w7 = update_guard_and_revalidation
              [OF h, of Client 7 True True True 20240101 update_to_rental]
  have same: "fst (update_reservation True True True 20240101 db_sold_and_rental 1 update_to_rental 7 Client)
       = Inr (1, sale_pending\<lparr>type_transaction := Location, date_fin := Some 20240610\<rparr>)"
    using update_guard_and_revalidation [OF h2, of Client 7 True True True 20240101 update_to_rental]
      h ok by simp
  have v: "validate_reservation_dates 20240101 20240601 (Some 20240610) Location"
    using w7 same t by (auto simp: sale_pending_def)
  have f: "user_id sale_pending \<noteq> 8" by (simp add: sale_pending_def)
  show ?thesis using h h2 t same c v w8 f by simp
qed

section \<open>The availability invariant over sequences of operations\<close>

lemma update_rows_Nil: "update_rows k f [] = []"
  by (simp add: update_rows_def)

lemma update_rows_Cons:
  "update_rows k f ((i, v) # rows) = (if i = k then (i, f v) else (i, v)) # update_rows k f rows"
  by (simp add: update_rows_def)

lemma in_set_update_rows:
  "((i, x) \<in> set (update_rows k f rows))
     = (if i = k then \<exists>v. (k, v) \<in> set rows \<and> x = f v else (i, x) \<in> set rows)"
proof (induction rows)
  case Nil
  show ?case by (simp add: update_rows_Nil)
next
  case (Cons row rows)
  obtain j v where row: "row = (j, v)" by (cases row)
  show ?case
    unfolding row update_rows_Cons using Cons.IH by (cases "i = k"; cases "j = k") auto
qed

lemma map_fst_update_rows: "map fst (update_rows k f rows) = map fst rows"
  by (induction rows) (auto simp: update_rows_def)

lemma foldr_max_ge: "k \<in> set ks \<Longrightarrow> k \<le> foldr max ks (0::nat)"
  by (induction ks) (auto simp: max_def)

lemma next_id_fresh: "(next_id rows, x) \<notin> set rows"
proof
  assume "(next_id rows, x) \<in> set rows"
  then have "next_id rows \<in> set (map fst rows)" by force
  then have "next_id rows \<le> foldr max (map fst rows) 0" by (rule foldr_max_ge)
  then show False by (simp add: next_id_def)
qed

lemma has_reservation_iff:
  "has_reservation db cid P
     = (\<exists>rid r. (rid, r) \<in> set (reservations db) \<and> car_id r = cid \<and> P r)"
  by (auto simp: has_reservation_def list_ex_iff)

lemma one_active_per_car_iff:
  "one_active_per_car db
     = (\<forall>rid1 r1 rid2 r2. (rid1, r1) \<in> set (reservations db) \<and> (rid2, r2) \<in> set (reservations db)
          \<and> active r1 \<and> active r2 \<and> car_id r1 = car_id r2 \<longrightarrow> rid1 = rid2)"
  unfolding one_active_per_car_def list_all_iff by fast

lemma sold_cars_closed_iff:
  "sold_cars_closed db
     = (\<forall>rid r. (rid, r) \<in> set (reservations db) \<and> active r
          \<longrightarrow> \<not> has_completed_sale db (car_id r))"
  unfolding sold_cars_closed_def list_all_iff by fast

lemma availability_cases:
  "(a = Disponible) = (a \<noteq> Loue \<and> a \<noteq> Vendu)"
  by (cases a) simp_all

lemma coordinator_invariant_iff:
  "coordinator_invariant db
     = (distinct (map fst (reservations db))
        \<and> one_active_per_car db
        \<and> sold_cars_closed db
        \<and> (\<forall>cid c. (cid, c) \<in> set (cars db) \<longrightarrow>
              (disponibilite c = Loue) = has_active db cid Location
              \<and> (disponibilite c = Vendu)
                  = (has_active db cid Vente \<or> has_completed_sale db cid)))"
proof -
  have "((disponibilite c = Loue) = has_active db cid Location
            \<and> (disponibilite c = Vendu) = (has_active db cid Vente \<or> has_completed_sale db cid)
            \<and> (disponibilite c = Disponible)
                = (\<not> has_active db cid Location \<and> \<not> has_active db cid Vente
                   \<and> \<not> has_completed_sale db cid))
        = ((disponibilite c = Loue) = has_active db cid Location
            \<and> (disponibilite c = Vendu)
                = (has_active db cid Vente \<or> has_completed_sale db cid))" for cid c
    unfolding availability_cases [of "disponibilite c"] by blast
  then show ?thesis
    unfolding coordinator_invariant_def list_all_iff by fast
qed

lemma row_unique:
  assumes "distinct (map fst rows)" and "map_of rows k = Some v" and "(k, x) \<in> set rows"
  shows "x = v"
  using assms by (simp add: map_of_eq_Some_iff)

text \<open>The reservations of a store after one row has been replaced.\<close>

lemma has_reservation_replace:
  assumes d: "distinct (map fst (reservations db))" and l: "map_of (reservations db) rid = Some r"
    and eq: "reservations db' = update_rows rid (\<lambda>_. r') (reservations db)"
  shows "has_reservation db' cid P
           = ((car_id r' = cid \<and> P r')
              \<or> (\<exists>i x. (i, x) \<in> set (reservations db) \<and> i \<noteq> rid \<and> car_id x = cid \<and> P x))"
proof -
  have mem: "(rid, r) \<in> set (reservations db)"
    using l by (rule map_of_SomeD)
  have in': "((i, x) \<in> set (reservations db'))
               = (if i = rid then x = r' else (i, x) \<in> set (reservations db))" for i x
    unfolding eq in_set_update_rows using mem by auto
  show ?thesis
    unfolding has_reservation_iff in' by (auto split: if_splits)
qed

lemma has_reservation_split:
  assumes d: "distinct (map fst (reservations db))" and l: "map_of (reservations db) rid = Some r"
  shows "has_reservation db cid P
           = ((car_id r = cid \<and> P r)
              \<or> (\<exists>i x. (i, x) \<in> set (reservations db) \<and> i \<noteq> rid \<and> car_id x = cid \<and> P x))"
proof -
  have mem: "(rid, r) \<in> set (reservations db)"
    using l by (rule map_of_SomeD)
  show ?thesis
    unfolding has_reservation_iff using mem row_unique [OF d l] by blast
qed

lemma has_reservation_same:
  assumes d: "distinct (map fst (reservations db))" and l: "map_of (reservations db) rid = Some r"
    and eq: "reservations db' = update_rows rid (\<lambda>_. r') (reservations db)"
    and same: "car_id r' = car_id r" "P r' = P r"
  shows "has_reservation db' cid P = has_reservation db cid P"
  unfolding has_reservation_replace [OF d l eq] has_reservation_split [OF d l] using same by simp

lemma has_reservation_removed:
  assumes d: "distinct (map fst (reservations db))" and l: "map_of (reservations db) rid = Some r"
    and eq: "reservations db' = update_rows rid (\<lambda>_. r') (reservations db)"
    and gone: "\<not> P r'"
    and others: "\<not> (\<exists>i x. (i, x) \<in> set (reservations db)
                        \<and> i \<noteq> rid \<and> car_id x = car_id r \<and> P x)"
  shows "has_reservation db' cid P = (cid \<noteq> car_id r \<and> has_reservation db cid P)"
proof (cases "cid = car_id r")
  case True
  show ?thesis
    unfolding has_reservation_replace [OF d l eq] True using gone others by simp
next
  case False
  show ?thesis
    unfolding has_reservation_replace [OF d l eq] has_reservation_split [OF d l]
    using False gone by auto
qed

lemma one_active_others:
  assumes l: "map_of (reservations db) rid = Some r"
    and one: "one_active_per_car db" and act: "active r"
  shows "\<not> (\<exists>i x. (i, x) \<in> set (reservations db)
                    \<and> i \<noteq> rid \<and> car_id x = car_id r \<and> active x \<and> Q x)"
proof -
  have mem: "(rid, r) \<in> set (reservations db)"
    using l by (rule map_of_SomeD)
  show ?thesis
    using one [unfolded one_active_per_car_iff] act mem by blast
qed

lemma one_active_per_car_replace:
  assumes d: "distinct (map fst (reservations db))" and l: "map_of (reservations db) rid = Some r"
    and eq: "reservations db' = update_rows rid (\<lambda>_. r') (reservations db)"
    and one: "one_active_per_car db" and car: "car_id r' = car_id r" and act: "active r' \<longrightarrow> active r"
  shows "one_active_per_car db'"
proof -
  have mem: "(rid, r) \<in> set (reservations db)"
    using l by (rule map_of_SomeD)
  have orig: "\<exists>y. (i, y) \<in> set (reservations db) \<and> car_id y = car_id x \<and> (active x \<longrightarrow> active y)"
    if "(i, x) \<in> set (reservations db')" for i x
  proof (cases "i = rid")
    case True
    then have "x = r'" using that unfolding eq in_set_update_rows by auto
    then show ?thesis using True mem car act by auto
  next
    case False
    then have "(i, x) \<in> set (reservations db)" using that unfolding eq in_set_update_rows by auto
    then show ?thesis by auto
  qed
  have "rid1 = rid2"
    if a: "(rid1, r1) \<in> set (reservations db')" and b: "(rid2, r2) \<in> set (reservations db')"
      and c: "active r1" "active r2" "car_id r1 = car_id r2" for rid1 r1 rid2 r2
  proof -
    from orig [OF a] obtain y1 where y1: "(rid1, y1) \<in> set (reservations db)"
      "car_id y1 = car_id r1" "active y1" using c by auto
    from orig [OF b] obtain y2 where y2: "(rid2, y2) \<in> set (reservations db)"
      "car_id y2 = car_id r2" "active y2" using c by auto
    have "car_id y1 = car_id y2" using y1(2) y2(2) c(3) by simp
    with one [unfolded one_active_per_car_iff] y1(1,3) y2(1,3) show ?thesis by blast
  qed
  then show ?thesis unfolding one_active_per_car_iff by blast
qed

lemma active_not_completed: "active r \<Longrightarrow> \<not> completed_sale r"
  by (auto simp: active_def completed_sale_def)

lemma replaced_row_origin:
  assumes l: "map_of (reservations db) rid = Some r"
    and eq: "reservations db' = update_rows rid (\<lambda>_. r') (reservations db)"
    and car: "car_id r' = car_id r" and act: "active r' \<longrightarrow> active r"
    and mem': "(i, x) \<in> set (reservations db')"
  shows "\<exists>y. (i, y) \<in> set (reservations db) \<and> car_id y = car_id x \<and> (active x \<longrightarrow> active y)"
proof (cases "i = rid")
  case True
  have mem: "(rid, r) \<in> set (reservations db)"
    using l by (rule map_of_SomeD)
  have "x = r'" using True mem' unfolding eq in_set_update_rows by auto
  then show ?thesis using True mem car act by auto
next
  case False
  then have "(i, x) \<in> set (reservations db)" using mem' unfolding eq in_set_update_rows by auto
  then show ?thesis by auto
qed

lemma sold_cars_closed_replace:
  assumes l: "map_of (reservations db) rid = Some r"
    and eq: "reservations db' = update_rows rid (\<lambda>_. r') (reservations db)"
    and closed: "sold_cars_closed db"
    and car: "car_id r' = car_id r" and act: "active r' \<longrightarrow> active r"
    and hc: "\<And>cid. has_completed_sale db' cid = has_completed_sale db cid"
  shows "sold_cars_closed db'"
proof -
  have "\<not> has_completed_sale db' (car_id x)"
    if "(i, x) \<in> set (reservations db')" "active x" for i x
  proof -
    from replaced_row_origin [OF l eq car act that(1)] that(2)
    obtain y where "(i, y) \<in> set (reservations db)" "car_id y = car_id x" "active y" by auto
    then show ?thesis using closed unfolding sold_cars_closed_iff hc by metis
  qed
  then show ?thesis unfolding sold_cars_closed_iff by blast
qed

text \<open>A row is replaced by one of the same car, type, activity and completion.\<close>

lemma invariant_replace_same:
  assumes inv: "coordinator_invariant db" and l: "map_of (reservations db) rid = Some r"
    and eq: "reservations db' = update_rows rid (\<lambda>_. r') (reservations db)"
    and cars: "cars db' = cars db"
    and same: "car_id r' = car_id r" "type_transaction r' = type_transaction r"
      "active r' = active r" "completed_sale r' = completed_sale r"
  shows "coordinator_invariant db'"
proof -
  from inv have d: "distinct (map fst (reservations db))" and one: "one_active_per_car db"
    and closed: "sold_cars_closed db"
    by (simp_all add: coordinator_invariant_iff)
  have ha: "has_active db' cid ty = has_active db cid ty" for cid ty
    unfolding has_active_def using same by (intro has_reservation_same [OF d l eq]) simp_all
  have hc: "has_completed_sale db' cid = has_completed_sale db cid" for cid
    unfolding has_completed_sale_def using same by (intro has_reservation_same [OF d l eq]) simp_all
  have "distinct (map fst (reservations db'))"
    using d by (simp add: eq map_fst_update_rows)
  moreover have "one_active_per_car db'"
    using one_active_per_car_replace [OF d l eq one] same by simp
  moreover have "sold_cars_closed db'"
    using sold_cars_closed_replace [OF l eq closed _ _ hc] same by simp
  ultimately show ?thesis
    using inv unfolding coordinator_invariant_iff ha hc cars by simp
qed

text \<open>A pending or confirmed row is cancelled or completed.\<close>

lemma has_active_deactivated:
  assumes d: "distinct (map fst (reservations db))" and one: "one_active_per_car db"
    and l: "map_of (reservations db) rid = Some r"
    and eq: "reservations db' = update_rows rid (\<lambda>_. r') (reservations db)"
    and act: "active r" "\<not> active r'"
  shows "has_active db' cid ty = (cid \<noteq> car_id r \<and> has_active db cid ty)"
  unfolding has_active_def
  using act(2) one_active_others [OF l one act(1)]
  by (intro has_reservation_removed [OF d l eq]) simp_all

lemma invariant_release:
  assumes inv: "coordinator_invariant db" and l: "map_of (reservations db) rid = Some r"
    and eq: "reservations db' = update_rows rid (\<lambda>_. r') (reservations db)"
    and cars: "cars db' = update_rows (car_id r) (\<lambda>c. c\<lparr>disponibilite := Disponible\<rparr>) (cars db)"
    and same: "car_id r' = car_id r"
    and act: "active r" "\<not> active r'" and nc: "\<not> completed_sale r'"
  shows "coordinator_invariant db'"
proof -
  from inv have d: "distinct (map fst (reservations db))" and one: "one_active_per_car db"
    and closed: "sold_cars_closed db"
    by (simp_all add: coordinator_invariant_iff)
  have mem: "(rid, r) \<in> set (reservations db)"
    using l by (rule map_of_SomeD)
  note ha = has_active_deactivated [OF d one l eq act]
  have hc: "has_completed_sale db' cid = has_completed_sale db cid" for cid
    unfolding has_completed_sale_def
    using same nc active_not_completed [OF act(1)]
    by (intro has_reservation_same [OF d l eq]) simp_all
  have free: "\<not> has_completed_sale db (car_id r)"
    using closed mem act(1) unfolding sold_cars_closed_iff by blast
  have "distinct (map fst (reservations db'))"
    using d by (simp add: eq map_fst_update_rows)
  moreover have "one_active_per_car db'"
    using one_active_per_car_replace [OF d l eq one] same act by simp
  moreover have "sold_cars_closed db'"
    using sold_cars_closed_replace [OF l eq closed _ _ hc] same act by simp
  moreover have "(disponibilite c = Loue) = has_active db' cid Location
              \<and> (disponibilite c = Vendu)
                  = (has_active db' cid Vente \<or> has_completed_sale db' cid)"
    if "(cid, c) \<in> set (cars db')" for cid c
  proof (cases "cid = car_id r")
    case True
    then have "disponibilite c = Disponible"
      using that unfolding cars in_set_update_rows by auto
    then show ?thesis unfolding ha hc using True free by simp
  next
    case False
    then have "(cid, c) \<in> set (cars db)"
      using that unfolding cars in_set_update_rows by simp
    then show ?thesis
      using inv False unfolding coordinator_invariant_iff ha hc by blast
  qed
  ultimately show ?thesis unfolding coordinator_invariant_iff by blast
qed

text \<open>A pending or confirmed sale is completed; the car is not written.\<close>

lemma invariant_complete_sale:
  assumes inv: "coordinator_invariant db" and l: "map_of (reservations db) rid = Some r"
    and eq: "reservations db' = update_rows rid (\<lambda>_. r') (reservations db)"
    and cars: "cars db' = cars db"
    and same: "car_id r' = car_id r" and act: "active r" "\<not> active r'"
    and sale: "type_transaction r = Vente" and compl: "completed_sale r'"
  shows "coordinator_invariant db'"
proof -
  from inv have d: "distinct (map fst (reservations db))" and one: "one_active_per_car db"
    and closed: "sold_cars_closed db"
    by (simp_all add: coordinator_invariant_iff)
  have mem: "(rid, r) \<in> set (reservations db)"
    using l by (rule map_of_SomeD)
  note ha = has_active_deactivated [OF d one l eq act]
  have hc: "has_completed_sale db' cid = (cid = car_id r \<or> has_completed_sale db cid)" for cid
    unfolding has_completed_sale_def has_reservation_replace [OF d l eq]
      has_reservation_split [OF d l, of cid]
    using same compl active_not_completed [OF act(1)] by auto
  have before: "has_active db (car_id r) Vente"
    unfolding has_active_def has_reservation_split [OF d l] using act sale by simp
  have "distinct (map fst (reservations db'))"
    using d by (simp add: eq map_fst_update_rows)
  moreover have "one_active_per_car db'"
    using one_active_per_car_replace [OF d l eq one] same act by simp
  moreover have "sold_cars_closed db'"
  proof -
    have "\<not> has_completed_sale db' (car_id x)"
      if m: "(i, x) \<in> set (reservations db')" and a: "active x" for i x
    proof -
      have "i \<noteq> rid"
      proof
        assume "i = rid"
        then have "x = r'" using m mem unfolding eq in_set_update_rows by auto
        then show False using a act(2) by simp
      qed
      then have old: "(i, x) \<in> set (reservations db)"
        using m unfolding eq in_set_update_rows by simp
      have "car_id x \<noteq> car_id r"
        using one [unfolded one_active_per_car_iff] old mem a act(1) \<open>i \<noteq> rid\<close> by blast
      moreover have "\<not> has_completed_sale db (car_id x)"
        using closed old a unfolding sold_cars_closed_iff by blast
      ultimately show ?thesis unfolding hc by simp
    qed
    then show ?thesis unfolding sold_cars_closed_iff by blast
  qed
  moreover have "(disponibilite c = Loue) = has_active db' cid Location
              \<and> (disponibilite c = Vendu)
                  = (has_active db' cid Vente \<or> has_completed_sale db' cid)"
    if "(cid, c) \<in> set (cars db')" for cid c
  proof -
    have old: "(disponibilite c = Loue) = has_active db cid Location
              \<and> (disponibilite c = Vendu)
                  = (has_active db cid Vente \<or> has_completed_sale db cid)"
      using inv that unfolding coordinator_invariant_iff cars by blast
    show ?thesis
    proof (cases "cid = car_id r")
      case True
      then have "disponibilite c = Vendu" using old before by simp
      then show ?thesis unfolding ha hc using True by simp
    next
      case False
      then show ?thesis using old unfolding ha hc by simp
    qed
  qed
  ultimately show ?thesis unfolding coordinator_invariant_iff by blast
qed

text \<open>A pending reservation is added on an available car, which is marked.\<close>

lemma invariant_create:
  assumes inv: "coordinator_invariant db" and lc: "map_of (cars db) cid = Some c"
    and free: "disponibilite c = Disponible"
    and r: "car_id r = cid" "active r"
    and eq: "reservations db' = reservations db @ [(next_id (reservations db), r)]"
    and cars: "cars db' = update_rows cid (\<lambda>c. c\<lparr>disponibilite := a\<rparr>) (cars db)"
    and a: "a = (case type_transaction r of Vente \<Rightarrow> Vendu | Location \<Rightarrow> Loue)"
  shows "coordinator_invariant db'"
proof -
  from inv have d: "distinct (map fst (reservations db))" and one: "one_active_per_car db"
    and closed: "sold_cars_closed db"
    by (simp_all add: coordinator_invariant_iff)
  have "(cid, c) \<in> set (cars db)" using lc by (rule map_of_SomeD)
  then have row: "(disponibilite c = Loue) = has_active db cid Location"
    "(disponibilite c = Vendu) = (has_active db cid Vente \<or> has_completed_sale db cid)"
    using inv unfolding coordinator_invariant_iff by blast+
  have none: "\<not> has_active db cid ty" for ty
    using row free by (cases ty) simp_all
  have nosale: "\<not> has_completed_sale db cid"
    using row free by simp
  have ha: "has_active db' x ty = (has_active db x ty \<or> (x = cid \<and> ty = type_transaction r))"
    for x ty
    unfolding has_active_def has_reservation_iff eq using r by auto
  have hc: "has_completed_sale db' x = has_completed_sale db x" for x
    unfolding has_completed_sale_def has_reservation_iff eq
    using active_not_completed [OF r(2)] by auto
  have fresh: "next_id (reservations db) \<notin> set (map fst (reservations db))"
    using next_id_fresh [of "reservations db"] by auto
  have old: "(i, x) \<in> set (reservations db) \<Longrightarrow> active x \<Longrightarrow> car_id x \<noteq> cid" for i x
    using none unfolding has_active_def has_reservation_iff by blast
  have "distinct (map fst (reservations db'))"
    using d fresh by (simp add: eq)
  moreover have "one_active_per_car db'"
  proof -
    have "rid1 = rid2"
      if a: "(rid1, r1) \<in> set (reservations db')" and b: "(rid2, r2) \<in> set (reservations db')"
        and c: "active r1" "active r2" "car_id r1 = car_id r2" for rid1 r1 rid2 r2
    proof -
      consider "(rid1, r1) \<in> set (reservations db)" "(rid2, r2) \<in> set (reservations db)"
        | "(rid1, r1) = (next_id (reservations db), r)" "(rid2, r2) = (next_id (reservations db), r)"
        | "(rid1, r1) \<in> set (reservations db)" "(rid2, r2) = (next_id (reservations db), r)"
        | "(rid1, r1) = (next_id (reservations db), r)" "(rid2, r2) \<in> set (reservations db)"
        using a b unfolding eq by auto
      then show ?thesis
      proof cases
        case 1
        then show ?thesis using one [unfolded one_active_per_car_iff] c by blast
      next
        case 2
        then show ?thesis by simp
      next
        case 3
        then show ?thesis using old [of rid1 r1] c r by simp
      next
        case 4
        then show ?thesis using old [of rid2 r2] c r by simp
      qed
    qed
    then show ?thesis unfolding one_active_per_car_iff by blast
  qed
  moreover have "sold_cars_closed db'"
  proof -
    have "\<not> has_completed_sale db' (car_id x)"
      if m: "(i, x) \<in> set (reservations db')" and ax: "active x" for i x
    proof (cases "(i, x) \<in> set (reservations db)")
      case True
      then show ?thesis using closed ax unfolding sold_cars_closed_iff hc by blast
    next
      case False
      then have "x = r" using m unfolding eq by auto
      then show ?thesis unfolding hc using nosale r by simp
    qed
    then show ?thesis unfolding sold_cars_closed_iff by blast
  qed
  moreover have "(disponibilite c' = Loue) = has_active db' x Location
              \<and> (disponibilite c' = Vendu)
                  = (has_active db' x Vente \<or> has_completed_sale db' x)"
    if "(x, c') \<in> set (cars db')" for x c'
  proof (cases "x = cid")
    case True
    then have "disponibilite c' = a"
      using that unfolding cars in_set_update_rows by auto
    then show ?thesis
      unfolding ha hc using True none nosale a by (cases "type_transaction r") simp_all
  next
    case False
    then have "(x, c') \<in> set (cars db)"
      using that unfolding cars in_set_update_rows by simp
    then show ?thesis
      using inv False unfolding coordinator_invariant_iff ha hc by blast
  qed
  ultimately show ?thesis unfolding coordinator_invariant_iff by blast
qed

text \<open>The store after each operation: the one before, or the one with all its writes.\<close>

lemma create_reservation_store:
  assumes "map_of (cars db) (car_id d) = Some c"
  shows "snd (create_reservation commit_ok refresh_ok response_ok now db d uid) = db
   \<or> (disponibilite c = Disponible
       \<and> snd (create_reservation commit_ok refresh_ok response_ok now db d uid)
           = \<lparr>cars = update_rows (car_id d)
                       (\<lambda>c. c\<lparr>disponibilite := (case type_transaction d of
                                                   Vente \<Rightarrow> Vendu | Location \<Rightarrow> Loue)\<rparr>)
                       (cars db),
              reservations = reservations db
                             @ [(next_id (reservations db), new_reservation d uid)]\<rparr>)"
  unfolding create_reservation_found [OF assms] by simp

lemma update_reservation_status_store:
  assumes l: "map_of (reservations db) rid = Some r"
  shows "snd (update_reservation_status commit_ok refresh_ok response_ok db rid new_status role) = db
   \<or> (new_status \<in> set (valid_transitions (statut r))
       \<and> snd (update_reservation_status commit_ok refresh_ok response_ok db rid new_status role)
           = \<lparr>cars = (if new_status = Annulee
                          \<or> (new_status = Terminee \<and> type_transaction r = Location)
                       then update_rows (car_id r) (\<lambda>c. c\<lparr>disponibilite := Disponible\<rparr>) (cars db)
                       else cars db),
              reservations = update_rows rid (\<lambda>_. r\<lparr>statut := new_status\<rparr>) (reservations db)\<rparr>)"
proof (cases "role = Vendeur \<and> new_status \<in> set (valid_transitions (statut r))")
  case True
  then show ?thesis using update_reservation_status_edge [OF l, of new_status] by simp
next
  case False
  then show ?thesis
    using update_reservation_status_forbidden [of role]
      update_reservation_status_invalid [OF l, of new_status]
    by (cases "role = Vendeur") auto
qed

lemma cancel_reservation_no_row:
  "map_of (reservations db) rid = None \<Longrightarrow> snd (cancel_reservation commit_ok db rid uid role) = db"
  by (simp add: cancel_reservation_def session_defs Let_def)

lemma cancel_reservation_result:
  "map_of (reservations db) rid = Some r \<Longrightarrow>
   snd (cancel_reservation commit_ok db rid uid role) = db
   \<or> (statut r \<noteq> Annulee \<and> statut r \<noteq> Terminee
       \<and> snd (cancel_reservation commit_ok db rid uid role)
           = \<lparr>cars = update_rows (car_id r) (\<lambda>c. c\<lparr>disponibilite := Disponible\<rparr>) (cars db),
              reservations = update_rows rid (\<lambda>_. r\<lparr>statut := Annulee\<rparr>) (reservations db)\<rparr>)"
  by (cases "map_of (cars db) (car_id r)")
     (simp_all add: cancel_reservation_def session_defs Let_def update_rows_absent)

lemma update_reservation_no_row:
  "map_of (reservations db) rid = None
   \<Longrightarrow> snd (update_reservation commit_ok refresh_ok response_ok now db rid u uid role) = db"
  by (simp add: update_reservation_def session_defs Let_def)

lemma update_reservation_refused:
  "map_of (reservations db) rid = Some r \<Longrightarrow> set_fields u r = Inl e
   \<Longrightarrow> snd (update_reservation commit_ok refresh_ok response_ok now db rid u uid role) = db"
  by (simp add: update_reservation_def session_defs Let_def)

lemma update_reservation_result:
  "map_of (reservations db) rid = Some r \<Longrightarrow> set_fields u r = Inr r' \<Longrightarrow>
   snd (update_reservation commit_ok refresh_ok response_ok now db rid u uid role) = db
   \<or> snd (update_reservation commit_ok refresh_ok response_ok now db rid u uid role)
       = \<lparr>cars = cars db, reservations = update_rows rid (\<lambda>_. r') (reservations db)\<rparr>"
  by (simp add: update_reservation_def session_defs Let_def)

lemma set_field_keeps:
  "(\<And>x v. g (setter x v) = g x) \<Longrightarrow> g (set_field sent setter r) = g r"
  by (simp add: set_field_def split: option.splits)

lemma set_field_not_assigned:
  "(case sent of Some (Some v) \<Rightarrow> True | _ \<Rightarrow> False) = False \<Longrightarrow> set_field sent setter r = r"
  by (simp add: set_field_def split: option.splits)

lemma set_fields_keeps:
  assumes scope: "\<not> assigns_status_or_type u" and sf: "set_fields u r = Inr r'"
  shows "car_id r' = car_id r \<and> type_transaction r' = type_transaction r \<and> statut r' = statut r"
proof -
  have ns: "set_field (upd_statut u) setter x = x" for setter x
    using scope by (intro set_field_not_assigned) (simp add: assigns_status_or_type_def)
  have nt: "set_field (upd_type_transaction u) setter x = x" for setter x
    using scope by (intro set_field_not_assigned) (simp add: assigns_status_or_type_def)
  define r3 where "r3 = set_field (upd_date_fin u) (\<lambda>x v. x\<lparr>date_fin := Some v\<rparr>)
                          (set_field (upd_date_debut u) (\<lambda>x v. x\<lparr>date_debut := v\<rparr>) r)"
  have k3: "car_id r3 = car_id r" "type_transaction r3 = type_transaction r" "statut r3 = statut r"
    unfolding r3_def by (simp_all add: set_field_keeps)
  obtain r4 where r4: "r' = set_field (upd_notes u) (\<lambda>x v. x\<lparr>res_notes := Some v\<rparr>) r4"
    and k4: "r4 = r3 \<or> (\<exists>v. r4 = r3\<lparr>prix_final := v\<rparr>)"
    using sf unfolding set_fields_def Let_def ns nt r3_def [symmetric]
    by (auto split: option.splits if_splits sum.splits)
  have "car_id r4 = car_id r3" "type_transaction r4 = type_transaction r3" "statut r4 = statut r3"
    using k4 by auto
  then show ?thesis
    unfolding r4 using k3 by (simp add: set_field_keeps)
qed

lemma active_cases: "active r = (statut r \<noteq> Annulee \<and> statut r \<noteq> Terminee)"
  by (cases "statut r") (simp_all add: active_def)

lemma invariant_create_reservation:
  assumes "coordinator_invariant db"
  shows "coordinator_invariant
           (snd (create_reservation commit_ok refresh_ok response_ok now db d uid))"
proof (cases "map_of (cars db) (car_id d)")
  case None
  then show ?thesis using assms by (simp add: create_reservation_no_car)
next
  case (Some c)
  from create_reservation_store [OF Some, of commit_ok refresh_ok response_ok now uid]
  show ?thesis
  proof
    assume "snd (create_reservation commit_ok refresh_ok response_ok now db d uid) = db"
    then show ?thesis using assms by simp
  next
    assume res: "disponibilite c = Disponible
       \<and> snd (create_reservation commit_ok refresh_ok response_ok now db d uid)
           = \<lparr>cars = update_rows (car_id d)
                       (\<lambda>c. c\<lparr>disponibilite := (case type_transaction d of
                                                   Vente \<Rightarrow> Vendu | Location \<Rightarrow> Loue)\<rparr>)
                       (cars db),
              reservations = reservations db
                             @ [(next_id (reservations db), new_reservation d uid)]\<rparr>"
    then have free: "disponibilite c = Disponible" by simp
    show ?thesis
      unfolding conjunct2 [OF res]
      by (rule invariant_create [OF assms Some free, where r = "new_reservation d uid"])
         (simp_all add: new_reservation_def active_def)
  qed
qed

lemma invariant_update_reservation_status:
  assumes "coordinator_invariant db"
  shows "coordinator_invariant
           (snd (update_reservation_status commit_ok refresh_ok response_ok db rid new_status role))"
proof (cases "map_of (reservations db) rid")
  case None
  then show ?thesis using assms by (simp add: update_reservation_status_no_row)
next
  case (Some r)
  from update_reservation_status_store
         [OF Some, of commit_ok refresh_ok response_ok new_status role]
  show ?thesis
  proof
    assume "snd (update_reservation_status commit_ok refresh_ok response_ok db rid new_status role)
              = db"
    then show ?thesis using assms by simp
  next
    assume both: "new_status \<in> set (valid_transitions (statut r))
       \<and> snd (update_reservation_status commit_ok refresh_ok response_ok db rid new_status role)
           = \<lparr>cars = (if new_status = Annulee
                          \<or> (new_status = Terminee \<and> type_transaction r = Location)
                       then update_rows (car_id r) (\<lambda>c. c\<lparr>disponibilite := Disponible\<rparr>) (cars db)
                       else cars db),
              reservations = update_rows rid (\<lambda>_. r\<lparr>statut := new_status\<rparr>) (reservations db)\<rparr>"
    then have edge: "new_status \<in> set (valid_transitions (statut r))" by simp
    note res = conjunct2 [OF both]
    have act: "active r" using edge by (cases "statut r") (simp_all add: active_def)
    have new: "new_status = Confirmee \<or> new_status = Annulee \<or> new_status = Terminee"
      using edge by (cases "statut r") auto
    show ?thesis
    proof (cases "new_status = Confirmee")
      case True
      show ?thesis
        unfolding res
        by (rule invariant_replace_same [OF assms Some, where r' = "r\<lparr>statut := new_status\<rparr>"])
           (use True act in \<open>auto simp add: active_def completed_sale_def\<close>)
    next
      case False
      show ?thesis
      proof (cases "new_status = Annulee \<or> (new_status = Terminee \<and> type_transaction r = Location)")
        case True
        have inactive: "\<not> active (r\<lparr>statut := new_status\<rparr>)"
          "\<not> completed_sale (r\<lparr>statut := new_status\<rparr>)"
          using True by (auto simp: active_def completed_sale_def)
        show ?thesis
          unfolding res
          by (rule invariant_release [OF assms Some, where r' = "r\<lparr>statut := new_status\<rparr>"])
             (use True act inactive in simp_all)
      next
        case notrel: False
        then have t: "new_status = Terminee" using new False by blast
        then have sale: "type_transaction r = Vente"
          using notrel by (cases "type_transaction r") simp_all
        have inactive: "\<not> active (r\<lparr>statut := new_status\<rparr>)"
          "completed_sale (r\<lparr>statut := new_status\<rparr>)"
          using t sale by (simp_all add: active_def completed_sale_def)
        show ?thesis
          unfolding res
          by (rule invariant_complete_sale [OF assms Some, where r' = "r\<lparr>statut := new_status\<rparr>"])
             (use notrel act sale inactive in simp_all)
      qed
    qed
  qed
qed

lemma invariant_cancel_reservation:
  assumes "coordinator_invariant db"
  shows "coordinator_invariant (snd (cancel_reservation commit_ok db rid uid role))"
proof (cases "map_of (reservations db) rid")
  case None
  then show ?thesis using assms by (simp add: cancel_reservation_no_row)
next
  case (Some r)
  from cancel_reservation_result [OF Some, of commit_ok uid role] show ?thesis
  proof
    assume "snd (cancel_reservation commit_ok db rid uid role) = db"
    then show ?thesis using assms by simp
  next
    assume both: "statut r \<noteq> Annulee \<and> statut r \<noteq> Terminee
       \<and> snd (cancel_reservation commit_ok db rid uid role)
           = \<lparr>cars = update_rows (car_id r) (\<lambda>c. c\<lparr>disponibilite := Disponible\<rparr>) (cars db),
              reservations = update_rows rid (\<lambda>_. r\<lparr>statut := Annulee\<rparr>) (reservations db)\<rparr>"
    then have act: "active r" by (simp add: active_cases)
    note res = conjunct2 [OF conjunct2 [OF both]]
    show ?thesis
      unfolding res
      by (rule invariant_release [OF assms Some, where r' = "r\<lparr>statut := Annulee\<rparr>"])
         (use act in \<open>simp_all add: active_def completed_sale_def\<close>)
  qed
qed

lemma invariant_update_reservation:
  assumes "coordinator_invariant db" and scope: "\<not> assigns_status_or_type u"
  shows "coordinator_invariant (snd (update_reservation commit_ok refresh_ok response_ok now db rid u uid role))"
proof (cases "map_of (reservations db) rid")
  case None
  then show ?thesis using assms by (simp add: update_reservation_no_row)
next
  case (Some r)
  show ?thesis
  proof (cases "set_fields u r")
    case (Inl e)
    then show ?thesis using assms Some by (simp add: update_reservation_refused)
  next
    case (Inr r')
    from update_reservation_result [OF Some Inr, of commit_ok refresh_ok response_ok now uid role] show ?thesis
    proof
      assume "snd (update_reservation commit_ok refresh_ok response_ok now db rid u uid role) = db"
      then show ?thesis using assms by simp
    next
      assume res: "snd (update_reservation commit_ok refresh_ok response_ok now db rid u uid role)
         = \<lparr>cars = cars db, reservations = update_rows rid (\<lambda>_. r') (reservations db)\<rparr>"
      show ?thesis
        unfolding res
        by (rule invariant_replace_same [OF assms(1) Some, where r' = r'])
           (use set_fields_keeps [OF scope Inr] in \<open>simp_all add: active_def completed_sale_def\<close>)
    qed
  qed
qed

lemma invariant_apply_operation:
  assumes "coordinator_invariant db" and "in_scope op"
  shows "coordinator_invariant (apply_operation op db)"
  using assms
  by (cases op)
     (simp_all add: invariant_create_reservation invariant_update_reservation_status
        invariant_update_reservation invariant_cancel_reservation)

text \<open>
  Claim C1, as amended. Start from a store in which the reservation keys are distinct,
  no car has two pending or confirmed reservations, no car with a completed sale has a
  pending or confirmed reservation, and every car is rented exactly when a pending or
  confirmed rental of it exists, sold exactly when a pending or confirmed sale or a
  completed sale of it exists, and available otherwise (a store with available cars and no
  reservation is one). Then all of this holds again after any sequence of create, status
  change and cancel calls, and of update calls that assign neither the status nor the
  transaction type, whether the calls succeed or fail.
\<close>

theorem coordinator_invariant_run:
  assumes "coordinator_invariant db" and "list_all in_scope ops"
  shows "coordinator_invariant (run ops db)"
  using assms unfolding run_def
proof (induction ops arbitrary: db)
  case Nil
  then show ?case by simp
next
  case (Cons op ops)
  then show ?case by (simp add: invariant_apply_operation)
qed

lemmas evaluation_defs = create_reservation_def update_reservation_status_def
  update_reservation_def cancel_reservation_def session_defs Let_def update_rows_def next_id_def
  validate_reservation_dates_def existing_reservations_def is_conflict_def new_reservation_def
  set_fields_def set_field_def touches_dates_def reservation_base_valid_def

lemma run_completed_sale:
  "run scenario_completed_sale db_initial
     = \<lparr>cars = [(1, example_car\<lparr>disponibilite := Vendu\<rparr>)],
        reservations = [(1, (new_reservation request_sale 7)\<lparr>statut := Terminee\<rparr>)]\<rparr>"
  by (simp add: run_def scenario_completed_sale_def db_initial_def example_car_def
      request_sale_def evaluation_defs)

lemma run_retyped:
  "run scenario_retyped db_initial
     = \<lparr>cars = [(1, example_car\<lparr>disponibilite := Vendu\<rparr>)],
        reservations = [(1, (new_reservation request_sale 7)
                             \<lparr>type_transaction := Location, date_fin := Some 20240610\<rparr>)]\<rparr>"
  by (simp add: run_def scenario_retyped_def db_initial_def example_car_def
      request_sale_def update_to_rental_def evaluation_defs)

lemma run_rental_cancelled:
  "run scenario_rental_cancelled db_initial
     = \<lparr>cars = [(1, example_car)],
        reservations = [(1, (new_reservation request_touching 7)\<lparr>statut := Annulee\<rparr>)]\<rparr>"
  by (simp add: run_def scenario_rental_cancelled_def db_initial_def example_car_def
      request_touching_def evaluation_defs)

theorem availability_consistent_counterexample:
  "availability_consistent db_initial
   \<and> \<not> availability_consistent (run scenario_completed_sale db_initial)
   \<and> \<not> availability_consistent (run scenario_retyped db_initial)"
  unfolding run_completed_sale run_retyped
  by (simp add: availability_consistent_def has_active_def has_reservation_def active_def
      db_initial_def example_car_def new_reservation_def request_sale_def)

theorem coordinator_invariant_run_witness:
  "coordinator_invariant db_initial
   \<and> list_all in_scope scenario_completed_sale
   \<and> coordinator_invariant (run scenario_completed_sale db_initial)
   \<and> run scenario_completed_sale db_initial
       = \<lparr>cars = [(1, example_car\<lparr>disponibilite := Vendu\<rparr>)],
          reservations = [(1, (new_reservation request_sale 7)\<lparr>statut := Terminee\<rparr>)]\<rparr>
   \<and> has_completed_sale (run scenario_completed_sale db_initial) 1
   \<and> list_all in_scope scenario_rental_cancelled
   \<and> coordinator_invariant (run scenario_rental_cancelled db_initial)
   \<and> run scenario_rental_cancelled db_initial
       = \<lparr>cars = [(1, example_car)],
          reservations = [(1, (new_reservation request_touching 7)\<lparr>statut := Annulee\<rparr>)]\<rparr>"
proof -
  have h1: "coordinator_invariant db_initial"
    by (simp add: coordinator_invariant_def one_active_per_car_def sold_cars_closed_def
        has_active_def has_completed_sale_def has_reservation_def db_initial_def example_car_def)
  have h2: "list_all in_scope scenario_completed_sale"
    by (simp add: scenario_completed_sale_def)
  have h3: "has_completed_sale (run scenario_completed_sale db_initial) 1"
    unfolding run_completed_sale
    by (simp add: has_completed_sale_def has_reservation_def completed_sale_def
        new_reservation_def request_sale_def)
  have h4: "list_all in_scope scenario_rental_cancelled"
    by (simp add: scenario_rental_cancelled_def)
  show ?thesis
    using h1 h2 h3 h4 coordinator_invariant_run [OF h1 h2] coordinator_invariant_run [OF h1 h4]
      run_completed_sale run_rental_cancelled
    by simp
qed

end
